theory Spec2Isabelle
  imports Complex_Main "HOL-Library.Word" "HOL-Library.Log_Nat"
begin

unbundle bit_operations_syntax

text \<open>
  A model of the voice session of the component \<^verbatim>\<open>App\<close> (\<^verbatim>\<open>src/App.tsx\<close>): the playback
  scheduler and its reset (\<^verbatim>\<open>stopAllAudio\<close>), the handler of inbound messages
  (\<^verbatim>\<open>onmessage\<close>), the transcript accumulators and the message log, and the callbacks of
  the session lifecycle (\<^verbatim>\<open>onerror\<close>, \<^verbatim>\<open>onclose\<close>, \<^verbatim>\<open>handleStopSession\<close>). The second
  source file of the repository holds a variant of the same component; its handlers are the
  same statement for statement, and only the texts shown to the user (and the prompt and
  the markup) differ. The texts here are those of \<^verbatim>\<open>src/App.tsx\<close>.

  Every callback is a function from the state of the component to its next state. A
  callback in which an exception can arise returns \<open>Exn + App\<close>, \<open>Inl\<close> being the exception
  that escapes it.
\<close>

section \<open>Data model\<close>

text \<open>
  The types of \<^verbatim>\<open>types.ts\<close> (appended to \<^verbatim>\<open>src/App.tsx\<close>):
  \<^verbatim>\<open>
  export interface TranscriptionMessage { role: 'user' | 'professor'; text: string; timestamp: number; }
  export enum SessionState { DISCONNECTED, CONNECTING, CONNECTED, ERROR }
  \<close>
  The field \<^verbatim>\<open>text\<close> is named \<open>text_of\<close> here.
\<close>

datatype SessionState = DISCONNECTED | CONNECTING | CONNECTED | ERROR

datatype Role = user | professor

record TranscriptionMessage =
  role :: Role
  text_of :: string
  timestamp :: nat

text \<open>
  One inbound message of the live session, as \<^verbatim>\<open>onmessage\<close> reads it. Every field
  of \<^verbatim>\<open>message.serverContent\<close> is optional:
  \<^item> \<open>inputTranscription\<close>, \<open>outputTranscription\<close>: the \<^verbatim>\<open>text\<close> of the fragment, when
    the object is present;
  \<^item> \<open>turnComplete\<close>, \<open>interrupted\<close>: the flags (absent reads as false);
  \<^item> \<open>inlineData\<close>: \<^verbatim>\<open>modelTurn?.parts[0]?.inlineData?.data\<close>, the base64 text of the audio.
\<close>

record LiveServerMessage =
  inputTranscription :: "string option"
  outputTranscription :: "string option"
  turnComplete :: bool
  inlineData :: "string option"
  interrupted :: bool

text \<open>
  The Web Audio and media objects the component holds. An \<^verbatim>\<open>AudioBuffer\<close> is kept by its
  \<^verbatim>\<open>duration\<close> (seconds), the only property the component reads. Times and durations
  are \<^verbatim>\<open>number\<close>s of the source, that is doubles; each is kept as the real number it
  denotes, and the arithmetic on them is that of the source (\<open>plus_double\<close> below). A
  source node is identified by the order of its creation (\<^verbatim>\<open>ctx.createBufferSource()\<close>
  returns a fresh object each time), so the \<^verbatim>\<open>Set<AudioBufferSourceNode>\<close> is a list of
  such identities in insertion order, the order \<^verbatim>\<open>forEach\<close> visits.
\<close>

record AudioBuffer =
  duration :: real

record AudioContext =
  sampleRate :: nat

datatype ReadyState = live | ended

record MediaStreamTrack =
  readyState :: ReadyState

datatype LiveSession = LiveSession nat

text \<open>
  What the component does to the output device, in the order it does it:
  \<open>Start i t d\<close> is \<^verbatim>\<open>source.start(t)\<close> on node \<open>i\<close> whose buffer lasts \<open>d\<close>,
  \<open>Stop i\<close> is a \<^verbatim>\<open>source.stop()\<close> on node \<open>i\<close> that returned normally.
\<close>

datatype DeviceCall = Start nat real real | Stop nat

text \<open>
  \<^verbatim>\<open>setMessages\<close> is always called with an updater function:
  \<^verbatim>\<open>setMessages(prev => [...prev, { role: 'user', text: currentInputTransRef.current, timestamp: Date.now() }])\<close>
  (and the same for \<^verbatim>\<open>'professor'\<close> with \<^verbatim>\<open>currentOutputTransRef\<close>). The function reads
  the ref and the clock when it is called, and React calls it when it processes its queue
  of updates. React is taken as it is since version 18, where the updates a callback makes
  are batched (the file that mounts the component is not among the sources): the queue is
  processed at the next render, after the callback has returned. The one exception is
  React's fast path: when the component has no update scheduled, the updater is called at
  once and the state it computes is kept for the render. An update of the queue is
  therefore either a state already computed or one of the two updaters, still to be
  called.
\<close>

datatype MessagesUpdate = Computed "TranscriptionMessage list" | Updater Role

text \<open>
  The state of the component \<^verbatim>\<open>App\<close>: its four \<^verbatim>\<open>useState\<close> values, its refs (named
  as in the source), and what surrounds it: the queue of updates of \<^verbatim>\<open>messages\<close> not
  yet rendered, the calls made to the output device, the number of source nodes created so
  far, and the sessions on which \<^verbatim>\<open>close()\<close> was called. The plain setters
  (\<^verbatim>\<open>setSessionState\<close>, \<^verbatim>\<open>setIsProfessorSpeaking\<close>, \<^verbatim>\<open>setErrorMessage\<close>) are given values,
  never functions, so the value the next render shows is the last one set: a field
  assignment.
\<close>

record App =
  sessionState :: SessionState
  messages :: "TranscriptionMessage list"
  isProfessorSpeaking :: bool
  errorMessage :: "string option"
  sessionRef :: "LiveSession option"
  inputAudioCtxRef :: "AudioContext option"
  outputAudioCtxRef :: "AudioContext option"
  micStreamRef :: "MediaStreamTrack list option"
  nextStartTimeRef :: real
  audioSourcesRef :: "nat list"
  currentInputTransRef :: string
  currentOutputTransRef :: string
  messagesQueue :: "MessagesUpdate list"
  deviceCalls :: "DeviceCall list"
  nodesCreated :: nat
  closedSessions :: "LiveSession list"

text \<open>
  What a handler reads from outside the component while it runs: the wall clock
  (\<^verbatim>\<open>Date.now()\<close>), the clock of the output device (\<^verbatim>\<open>ctx.currentTime\<close>), whether React
  has no update scheduled for the component (its fast path), and which source nodes raise
  when \<^verbatim>\<open>stop()\<close> is called on them (Web Audio raises \<^verbatim>\<open>InvalidStateError\<close> on a node in the
  wrong state; which state that is differs between implementations, so it is left open).
\<close>

record Env =
  dateNow :: nat
  currentTime :: real
  reactIdle :: bool
  stopThrows :: "nat \<Rightarrow> bool"

datatype Exn = InvalidStateError

section \<open>The numbers of the source\<close>

text \<open>
  A \<^verbatim>\<open>number\<close> of the source is an IEEE 754 double: a multiple \<open>m * 2^q\<close> of a power of
  two with \<open>\<bar>m\<bar> < 2^53\<close> and \<open>q \<ge> -1074\<close>. The component compares such numbers
  (\<^verbatim>\<open>Math.max\<close>, exact) and adds them (\<^verbatim>\<open>+=\<close>): the sum of two doubles is the exact sum
  rounded to the nearest double, a tie going to the one with the even \<open>m\<close>. The times and
  durations of a session are seconds of audio, far below the largest double (about
  \<open>1.8 * 10^308\<close>), so the overflow of a sum to \<^verbatim>\<open>Infinity\<close> is left out: the exponent
  is not bounded above here.

  \<open>round_half_even\<close> rounds a real number to the nearest integer, ties to even.
  \<open>pow2 q\<close> is \<open>2^q\<close> for an integer \<open>q\<close>. \<open>binade y\<close> is the exponent of the leading
  bit of \<open>y\<close>, the \<open>e\<close> with \<open>2^e \<le> \<bar>y\<bar> < 2^(e+1)\<close>, computed from the number of
  bits of the integer part of \<open>\<bar>y\<bar>\<close> or of its inverse. \<open>ulp_exponent y\<close> is the exponent
  of the spacing of the doubles around \<open>y\<close>: 52 below the leading bit, and never below
  \<open>-1074\<close> (the subnormal doubles).
\<close>

definition round_half_even :: "real \<Rightarrow> int" where
  "round_half_even y =
     (let f = \<lfloor>y\<rfloor>
      in if y - of_int f < 1 / 2 then f
         else if 1 / 2 < y - of_int f then f + 1
         else if even f then f else f + 1)"

definition pow2 :: "int \<Rightarrow> real" where
  "pow2 q = (if 0 \<le> q then 2 ^ nat q else 1 / 2 ^ nat (- q))"

definition binade :: "real \<Rightarrow> int" where
  "binade y =
     (if 1 \<le> \<bar>y\<bar> then bitlen \<lfloor>\<bar>y\<bar>\<rfloor> - 1
      else - bitlen (\<lceil>1 / \<bar>y\<bar>\<rceil> - 1))"

definition ulp_exponent :: "real \<Rightarrow> int" where
  "ulp_exponent y = max (binade y - 52) (- 1074)"

text \<open>
  The double nearest to a real number, and the addition of the source: \<^verbatim>\<open>x + y\<close> on
  doubles.
\<close>

definition round_double :: "real \<Rightarrow> real" where
  "round_double y =
     (if y = 0 then 0
      else of_int (round_half_even (y / pow2 (ulp_exponent y))) * pow2 (ulp_exponent y))"

definition plus_double :: "real \<Rightarrow> real \<Rightarrow> real" where
  "plus_double x y = round_double (x + y)"

text \<open>
  A real number is a double when it is a multiple of the spacing of the doubles around it.
  \<open>double_form\<close> abbreviates the same of a number that is not negative, by its significand
  and exponent.
\<close>

definition is_double :: "real \<Rightarrow> bool" where
  "is_double x =
     (x = 0 \<or> of_int \<lfloor>x / pow2 (ulp_exponent x)\<rfloor> = x / pow2 (ulp_exponent x))"

abbreviation double_form :: "real \<Rightarrow> bool" where
  "double_form x \<equiv> (\<exists>m p. x = of_int m * pow2 p \<and> 0 \<le> m \<and> m < 2 ^ 53 \<and> - 1074 \<le> p)"

section \<open>The playback scheduler and the interruption: stopAllAudio\<close>

text \<open>
  \<^verbatim>\<open>source.stop()\<close>: raises, or is recorded as a call to the device.
\<close>

definition source_stop :: "Env \<Rightarrow> nat \<Rightarrow> DeviceCall list \<Rightarrow> Exn + DeviceCall list" where
  "source_stop e i calls =
     (if stopThrows e i then Inl InvalidStateError else Inr (calls @ [Stop i]))"

text \<open>
  \<^verbatim>\<open>try { source.stop(); } catch (e) {}\<close>: the body of the \<^verbatim>\<open>forEach\<close>.
\<close>

definition try_stop :: "Env \<Rightarrow> nat \<Rightarrow> DeviceCall list \<Rightarrow> Exn + DeviceCall list" where
  "try_stop e i calls =
     (case source_stop e i calls of
        Inl ex \<Rightarrow> Inr calls
      | Inr calls' \<Rightarrow> Inr calls')"

text \<open>
  \<^verbatim>\<open>Set.prototype.forEach\<close>: visits the elements in insertion order; an exception the
  callback lets escape ends the loop and escapes it.
\<close>

fun forEach :: "('a \<Rightarrow> 's \<Rightarrow> Exn + 's) \<Rightarrow> 'a list \<Rightarrow> 's \<Rightarrow> Exn + 's" where
  "forEach f [] st = Inr st"
| "forEach f (x # xs) st =
     (case f x st of
        Inl ex \<Rightarrow> Inl ex
      | Inr st' \<Rightarrow> forEach f xs st')"

text \<open>
  \<^verbatim>\<open>
  const stopAllAudio = () => {
    audioSourcesRef.current.forEach(source => {
      try { source.stop(); } catch (e) {}
    });
    audioSourcesRef.current.clear();
    nextStartTimeRef.current = 0;
    setIsProfessorSpeaking(false);
  };
  \<close>
\<close>

definition stopAllAudio :: "Env \<Rightarrow> App \<Rightarrow> Exn + App" where
  "stopAllAudio e s =
     (case forEach (try_stop e) (audioSourcesRef s) (deviceCalls s) of
        Inl ex \<Rightarrow> Inl ex
      | Inr calls \<Rightarrow>
          Inr (s\<lparr>deviceCalls := calls,
                 audioSourcesRef := [],
                 nextStartTimeRef := 0,
                 isProfessorSpeaking := False\<rparr>))"

section \<open>The transcript aggregator: setMessages and the render\<close>

text \<open>
  The two updater functions of the source, called on the previous log \<open>prev\<close>: each reads
  its ref in the state \<open>s\<close> the component is in at the moment of the call, and
  \<^verbatim>\<open>Date.now()\<close> then.
\<close>

definition updater :: "Role \<Rightarrow> App \<Rightarrow> nat \<Rightarrow> TranscriptionMessage list \<Rightarrow> TranscriptionMessage list" where
  "updater r s now prev =
     prev @ [\<lparr>role = r,
               text_of = (case r of user \<Rightarrow> currentInputTransRef s
                                    | professor \<Rightarrow> currentOutputTransRef s),
               timestamp = now\<rparr>]"

text \<open>
  \<^verbatim>\<open>setMessages(updater)\<close>: on React's fast path (nothing scheduled for the component,
  so this is the first update of the queue) the updater is called at once on the rendered
  state and its result is queued; otherwise the updater itself is queued.
\<close>

definition setMessages :: "Env \<Rightarrow> Role \<Rightarrow> App \<Rightarrow> App" where
  "setMessages e r s =
     (if reactIdle e \<and> messagesQueue s = []
      then s\<lparr>messagesQueue := [Computed (updater r s (dateNow e) (messages s))]\<rparr>
      else s\<lparr>messagesQueue := messagesQueue s @ [Updater r]\<rparr>)"

fun apply_update :: "App \<Rightarrow> nat \<Rightarrow> TranscriptionMessage list \<Rightarrow> MessagesUpdate \<Rightarrow> TranscriptionMessage list" where
  "apply_update s now prev (Computed v) = v"
| "apply_update s now prev (Updater r) = updater r s now prev"

text \<open>
  The next render of the component: React runs the queue in order, from the rendered
  state, calling the updaters still to be called; the result is the new \<^verbatim>\<open>messages\<close>.
\<close>

definition render :: "Env \<Rightarrow> App \<Rightarrow> App" where
  "render e s =
     s\<lparr>messages := foldl (apply_update s (dateNow e)) (messages s) (messagesQueue s),
       messagesQueue := []\<rparr>"

section \<open>The inbound message handler: onmessage\<close>

text \<open>
  \<^verbatim>\<open>
  if (message.serverContent?.inputTranscription) {
    currentInputTransRef.current += message.serverContent.inputTranscription.text;
  }
  if (message.serverContent?.outputTranscription) {
    currentOutputTransRef.current += message.serverContent.outputTranscription.text;
  }
  \<close>
\<close>

definition append_transcriptions :: "LiveServerMessage \<Rightarrow> App \<Rightarrow> App" where
  "append_transcriptions m s =
     (let s1 = (case inputTranscription m of
                  None \<Rightarrow> s
                | Some t \<Rightarrow> s\<lparr>currentInputTransRef := currentInputTransRef s @ t\<rparr>)
      in (case outputTranscription m of
            None \<Rightarrow> s1
          | Some t \<Rightarrow> s1\<lparr>currentOutputTransRef := currentOutputTransRef s1 @ t\<rparr>))"

text \<open>
  \<^verbatim>\<open>
  if (message.serverContent?.turnComplete) {
    if (currentInputTransRef.current) {
      setMessages(prev => [...prev, { role: 'user', text: currentInputTransRef.current, timestamp: Date.now() }]);
    }
    if (currentOutputTransRef.current) {
      setMessages(prev => [...prev, { role: 'professor', text: currentOutputTransRef.current, timestamp: Date.now() }]);
    }
    currentInputTransRef.current = '';
    currentOutputTransRef.current = '';
  }
  \<close>
  A string is truthy when it is not empty.
\<close>

definition turn_complete :: "Env \<Rightarrow> App \<Rightarrow> App" where
  "turn_complete e s =
     (let s1 = (if currentInputTransRef s \<noteq> [] then setMessages e user s else s);
          s2 = (if currentOutputTransRef s1 \<noteq> [] then setMessages e professor s1 else s1)
      in s2\<lparr>currentInputTransRef := [], currentOutputTransRef := []\<rparr>)"

definition handle_transcriptions :: "Env \<Rightarrow> LiveServerMessage \<Rightarrow> App \<Rightarrow> App" where
  "handle_transcriptions e m s =
     (let s1 = append_transcriptions m s
      in if turnComplete m then turn_complete e s1 else s1)"

text \<open>
  \<^verbatim>\<open>if (base64Audio && outputAudioCtxRef.current)\<close>: the payload is truthy (present and
  not the empty string), and the output context exists.
\<close>

definition carries_audio :: "LiveServerMessage \<Rightarrow> bool" where
  "carries_audio m = (case inlineData m of None \<Rightarrow> False | Some d \<Rightarrow> d \<noteq> [])"

definition has_audio :: "LiveServerMessage \<Rightarrow> App \<Rightarrow> bool" where
  "has_audio m s = (carries_audio m \<and> outputAudioCtxRef s \<noteq> None)"

text \<open>
  The audio branch up to its \<^verbatim>\<open>await\<close>:
  \<^verbatim>\<open>
  setIsProfessorSpeaking(true);
  const ctx = outputAudioCtxRef.current;
  nextStartTimeRef.current = Math.max(nextStartTimeRef.current, ctx.currentTime);
  \<close>
\<close>

definition audio_begin :: "Env \<Rightarrow> App \<Rightarrow> App" where
  "audio_begin e s =
     s\<lparr>isProfessorSpeaking := True,
       nextStartTimeRef := max (nextStartTimeRef s) (currentTime e)\<rparr>"

text \<open>
  The audio branch from the point where
  \<^verbatim>\<open>await decodeAudioData(decode(base64Audio), ctx, 24000, 1)\<close> has yielded the buffer \<open>b\<close>:
  \<^verbatim>\<open>
  const source = ctx.createBufferSource();
  source.buffer = audioBuffer;
  source.connect(ctx.destination);
  source.onended = () => { ... };
  source.start(nextStartTimeRef.current);
  nextStartTimeRef.current += audioBuffer.duration;
  audioSourcesRef.current.add(source);
  \<close>
  The \<^verbatim>\<open>+=\<close> is the addition of doubles. \<^verbatim>\<open>Set.prototype.add\<close> leaves a set that
  holds the element as it is.
\<close>

definition audio_resume :: "AudioBuffer \<Rightarrow> App \<Rightarrow> App" where
  "audio_resume b s =
     (let source = nodesCreated s
      in s\<lparr>nodesCreated := Suc source,
           deviceCalls := deviceCalls s @ [Start source (nextStartTimeRef s) (duration b)],
           nextStartTimeRef := plus_double (nextStartTimeRef s) (duration b),
           audioSourcesRef := (if source \<in> set (audioSourcesRef s) then audioSourcesRef s
                               else audioSourcesRef s @ [source])\<rparr>)"

text \<open>
  The callback \<^verbatim>\<open>source.onended\<close> of node \<open>source\<close>:
  \<^verbatim>\<open>
  audioSourcesRef.current.delete(source);
  if (audioSourcesRef.current.size === 0) { setIsProfessorSpeaking(false); }
  \<close>
\<close>

definition onended :: "nat \<Rightarrow> App \<Rightarrow> App" where
  "onended source s =
     (let s1 = s\<lparr>audioSourcesRef := removeAll source (audioSourcesRef s)\<rparr>
      in if length (audioSourcesRef s1) = 0 then s1\<lparr>isProfessorSpeaking := False\<rparr> else s1)"

text \<open>
  \<^verbatim>\<open>if (message.serverContent?.interrupted) { stopAllAudio(); }\<close>: the last statement
  of the handler.
\<close>

definition handle_interrupted :: "Env \<Rightarrow> LiveServerMessage \<Rightarrow> App \<Rightarrow> Exn + App" where
  "handle_interrupted e m s = (if interrupted m then stopAllAudio e s else Inr s)"

text \<open>
  The handler is an \<^verbatim>\<open>async\<close> function with one \<^verbatim>\<open>await\<close>, inside the audio branch.
  \<open>onmessage_before_await\<close> is what runs when the message arrives: the whole handler for a
  message without audio (the result is \<open>Inr\<close> of its outcome), and the part up to the
  \<^verbatim>\<open>await\<close> otherwise (the result is \<open>Inl\<close> of the state the handler is suspended in).
  \<open>onmessage_after_await\<close> is the rest, run when the decoded buffer is there; other
  callbacks may have run in between.
\<close>

definition onmessage_before_await :: "Env \<Rightarrow> LiveServerMessage \<Rightarrow> App \<Rightarrow> App + (Exn + App)" where
  "onmessage_before_await e m s =
     (let s1 = handle_transcriptions e m s
      in if has_audio m s1 then Inl (audio_begin e s1)
         else Inr (handle_interrupted e m s1))"

definition onmessage_after_await :: "Env \<Rightarrow> AudioBuffer \<Rightarrow> LiveServerMessage \<Rightarrow> App \<Rightarrow> Exn + App" where
  "onmessage_after_await e b m s = handle_interrupted e m (audio_resume b s)"

text \<open>
  The handler run from its first statement to its last, no other callback running at its
  \<^verbatim>\<open>await\<close>; \<open>b\<close> is the buffer \<^verbatim>\<open>decodeAudioData\<close> yields for the payload of the message.
\<close>

definition onmessage :: "Env \<Rightarrow> AudioBuffer \<Rightarrow> LiveServerMessage \<Rightarrow> App \<Rightarrow> Exn + App" where
  "onmessage e b m s =
     (case onmessage_before_await e m s of
        Inl suspended \<Rightarrow> onmessage_after_await e b m suspended
      | Inr finished \<Rightarrow> finished)"

text \<open>
  A run of handlers is a list of their parts in the order in which they run. \<open>Arrives e m\<close>
  is a message arriving (its handler runs to its \<^verbatim>\<open>await\<close>, or to its last statement when
  the message has no audio); \<open>Resumes e b m\<close> is a suspended handler going on with its
  decoded buffer. Handlers that are not overtaken are an \<open>Arrives\<close> followed at once by its
  \<open>Resumes\<close>. Whether a handler can in fact be overtaken at its \<^verbatim>\<open>await\<close> depends on
  \<^verbatim>\<open>decodeAudioData\<close>, which is not among the sources. An exception that escapes a
  handler ends the run.
\<close>

datatype HandlerStep =
    Arrives Env LiveServerMessage
  | Resumes Env AudioBuffer LiveServerMessage

fun handler_steps :: "HandlerStep list \<Rightarrow> App \<Rightarrow> Exn + App" where
  "handler_steps [] s = Inr s"
| "handler_steps (Arrives e m # rest) s =
     (case onmessage_before_await e m s of
        Inl suspended \<Rightarrow> handler_steps rest suspended
      | Inr (Inl ex) \<Rightarrow> Inl ex
      | Inr (Inr s') \<Rightarrow> handler_steps rest s')"
| "handler_steps (Resumes e b m # rest) s =
     (case onmessage_after_await e b m s of
        Inl ex \<Rightarrow> Inl ex
      | Inr s' \<Rightarrow> handler_steps rest s')"

text \<open>
  Observations on such runs. A step is \<open>uninterrupted\<close> when its message does not carry
  the interrupted flag, and \<open>without_audio\<close> when it is the arrival of a message that
  carries no audio. \<open>durations_of\<close> are the durations of the buffers with which handlers
  go on, in that order: the durations of the segments, in the order in which they are
  enqueued. \<open>no_idle_gap c\<close> says that, the cursor being \<open>c\<close> when the run begins, no
  message with audio arrives when the device clock has passed the cursor: no clamp moves
  the cursor. \<open>running_starts n c ds\<close> are the calls that start segments of durations
  \<open>ds\<close> one at the end of the other from time \<open>c\<close>, each end being the sum the source
  computes; \<open>cursor_after c ds k\<close> is the cursor after the first \<open>k\<close> of them, the
  durations added to \<open>c\<close> one at a time as the source adds them. A list of calls to the
  device is \<open>chained\<close> from time \<open>c\<close> when it holds starts only, the first no earlier
  than \<open>c\<close> and each later one no earlier than the end the source computes for the segment
  before it.
\<close>

fun uninterrupted :: "HandlerStep \<Rightarrow> bool" where
  "uninterrupted (Arrives e m) = (\<not> interrupted m)"
| "uninterrupted (Resumes e b m) = (\<not> interrupted m)"


fun durations_of :: "HandlerStep list \<Rightarrow> real list" where
  "durations_of [] = []"
| "durations_of (Arrives e m # rest) = durations_of rest"
| "durations_of (Resumes e b m # rest) = duration b # durations_of rest"

fun no_idle_gap :: "real \<Rightarrow> HandlerStep list \<Rightarrow> bool" where
  "no_idle_gap c [] = True"
| "no_idle_gap c (Arrives e m # rest) =
     ((if carries_audio m then currentTime e \<le> c else True) \<and> no_idle_gap c rest)"
| "no_idle_gap c (Resumes e b m # rest) = no_idle_gap (plus_double c (duration b)) rest"

fun running_starts :: "nat \<Rightarrow> real \<Rightarrow> real list \<Rightarrow> DeviceCall list" where
  "running_starts n c [] = []"
| "running_starts n c (d # ds) = Start n c d # running_starts (Suc n) (plus_double c d) ds"

definition cursor_after :: "real \<Rightarrow> real list \<Rightarrow> nat \<Rightarrow> real" where
  "cursor_after c ds k = foldl plus_double c (take k ds)"

fun chained :: "real \<Rightarrow> DeviceCall list \<Rightarrow> bool" where
  "chained c [] = True"
| "chained c (Start i t d # calls) = (c \<le> t \<and> chained (plus_double t d) calls)"
| "chained c (Stop i # calls) = False"

section \<open>The session lifecycle: the start, onopen, onerror, onclose, handleStopSession\<close>

text \<open>
  The component when it is mounted: the initial values of its \<^verbatim>\<open>useState\<close> and
  \<^verbatim>\<open>useRef\<close> calls, and nothing done yet to the device or to a session.
\<close>

definition initial_app :: App where
  "initial_app =
     \<lparr>sessionState = DISCONNECTED,
      messages = [],
      isProfessorSpeaking = False,
      errorMessage = None,
      sessionRef = None,
      inputAudioCtxRef = None,
      outputAudioCtxRef = None,
      micStreamRef = None,
      nextStartTimeRef = 0,
      audioSourcesRef = [],
      currentInputTransRef = [],
      currentOutputTransRef = [],
      messagesQueue = [],
      deviceCalls = [],
      nodesCreated = 0,
      closedSessions = []\<rparr>"

text \<open>
  \<^verbatim>\<open>handleStartSession\<close> is an \<^verbatim>\<open>async\<close> function with two \<^verbatim>\<open>await\<close>s. Up to the first:
  \<^verbatim>\<open>
  setSessionState(SessionState.CONNECTING);
  setErrorMessage(null);
  inputAudioCtxRef.current = new AudioContext({ sampleRate: 16000 });
  outputAudioCtxRef.current = new AudioContext({ sampleRate: 24000 });
  \<close>
  When \<^verbatim>\<open>getUserMedia\<close> has yielded the stream: \<^verbatim>\<open>micStreamRef.current = stream\<close>, and
  the call of \<^verbatim>\<open>ai.live.connect\<close> that hands over the callbacks. When the session
  promise has yielded the session: \<^verbatim>\<open>sessionRef.current = await sessionPromise\<close>. An
  exception anywhere in it is caught (\<open>start_failed\<close> below).
\<close>

definition handleStartSession_begin :: "App \<Rightarrow> App" where
  "handleStartSession_begin s =
     s\<lparr>sessionState := CONNECTING,
       errorMessage := None,
       inputAudioCtxRef := Some \<lparr>sampleRate = 16000\<rparr>,
       outputAudioCtxRef := Some \<lparr>sampleRate = 24000\<rparr>\<rparr>"

definition handleStartSession_stream :: "MediaStreamTrack list \<Rightarrow> App \<Rightarrow> App" where
  "handleStartSession_stream stream s = s\<lparr>micStreamRef := Some stream\<rparr>"

definition handleStartSession_session :: "LiveSession \<Rightarrow> App \<Rightarrow> App" where
  "handleStartSession_session session s = s\<lparr>sessionRef := Some session\<rparr>"

text \<open>
  \<^verbatim>\<open>onopen\<close>: \<^verbatim>\<open>setSessionState(SessionState.CONNECTED)\<close>, and the wiring of the
  microphone stream to the script processor that sends the captured frames, which changes
  nothing of the state kept here.
\<close>

definition onopen :: "App \<Rightarrow> App" where
  "onopen s = s\<lparr>sessionState := CONNECTED\<rparr>"

text \<open>
  \<^verbatim>\<open>
  onerror: (err) => {
    console.error("Live session error:", err);
    setErrorMessage("Connection lost. Please check your internet and try again.");
    setSessionState(SessionState.ERROR);
  },
  onclose: () => { setSessionState(SessionState.DISCONNECTED); }
  \<close>
\<close>

definition onerror :: "App \<Rightarrow> App" where
  "onerror s =
     s\<lparr>errorMessage := Some ''Connection lost. Please check your internet and try again.'',
       sessionState := ERROR\<rparr>"

definition onclose :: "App \<Rightarrow> App" where
  "onclose s = s\<lparr>sessionState := DISCONNECTED\<rparr>"

text \<open>
  The \<^verbatim>\<open>catch\<close> of \<^verbatim>\<open>handleStartSession\<close>, the setup failure; \<open>err_message\<close> is
  \<^verbatim>\<open>err.message\<close>, which may be missing:
  \<^verbatim>\<open>
  setErrorMessage(err.message || "Could not connect to Professor Claire.");
  setSessionState(SessionState.ERROR);
  \<close>
\<close>

definition start_failed :: "string option \<Rightarrow> App \<Rightarrow> App" where
  "start_failed err_message s =
     s\<lparr>errorMessage :=
         Some (case err_message of
                 None \<Rightarrow> ''Could not connect to Professor Claire.''
               | Some msg \<Rightarrow> if msg \<noteq> [] then msg else ''Could not connect to Professor Claire.''),
       sessionState := ERROR\<rparr>"

text \<open>
  \<^verbatim>\<open>MediaStreamTrack.stop()\<close> ends the track.
\<close>

definition track_stop :: "MediaStreamTrack \<Rightarrow> MediaStreamTrack" where
  "track_stop t = t\<lparr>readyState := ended\<rparr>"

text \<open>
  \<^verbatim>\<open>
  const handleStopSession = () => {
    if (sessionRef.current) {
      sessionRef.current.close();
      sessionRef.current = null;
    }
    if (micStreamRef.current) {
      micStreamRef.current.getTracks().forEach(t => t.stop());
    }
    stopAllAudio();
    setSessionState(SessionState.DISCONNECTED);
  };
  \<close>
\<close>

definition handleStopSession :: "Env \<Rightarrow> App \<Rightarrow> Exn + App" where
  "handleStopSession e s =
     (let s1 = (case sessionRef s of
                  None \<Rightarrow> s
                | Some session \<Rightarrow>
                    s\<lparr>closedSessions := closedSessions s @ [session], sessionRef := None\<rparr>);
          s2 = (case micStreamRef s1 of
                  None \<Rightarrow> s1
                | Some tracks \<Rightarrow> s1\<lparr>micStreamRef := Some (map track_stop tracks)\<rparr>)
      in case stopAllAudio e s2 of
           Inl ex \<Rightarrow> Inl ex
         | Inr s3 \<Rightarrow> Inr (s3\<lparr>sessionState := DISCONNECTED\<rparr>))"

section \<open>The PCM codec\<close>

text \<open>
  \<^verbatim>\<open>createBlobFromPCM\<close>, \<^verbatim>\<open>decode\<close> and \<^verbatim>\<open>decodeAudioData\<close> are imported from
  \<^verbatim>\<open>./utils/audio\<close>, a file of this repository that is not among its sources here. The
  codec is therefore written from the specification. Samples are real numbers; the 32-bit
  floats of the source are among them, and for such a sample the product with 32767 and
  the division by 32768 are exact in the source's arithmetic as well. The envelope of the
  transport (base64 text and a MIME type around the bytes) is left out: a chunk is its
  bytes.
\<close>

text \<open>
  Modelled from the spec: \<^verbatim>\<open>clamp(s, -1, 1)\<close> of the encoder of
  \<^verbatim>\<open>utils/audio\<close> (\<^verbatim>\<open>createBlobFromPCM\<close>), which is missing.
\<close>

definition clamp :: "real \<Rightarrow> real \<Rightarrow> real \<Rightarrow> real" where
  "clamp s lo hi = max lo (min hi s)"

text \<open>
  Modelled from the spec: the encoder of \<^verbatim>\<open>utils/audio\<close> (\<^verbatim>\<open>createBlobFromPCM\<close>),
  which is missing, on one sample: "maps each float sample s to a 16-bit signed integer via
  \<^verbatim>\<open>round(clamp(s, -1, 1) * 32767)\<close>". \<open>round\<close> rounds to the nearest integer, halves
  upwards, as \<^verbatim>\<open>Math.round\<close> does.
\<close>

definition encode_sample :: "real \<Rightarrow> 16 word" where
  "encode_sample s = word_of_int (round (clamp s (-1) 1 * 32767))"

text \<open>
  Modelled from the spec: the serialisation of the missing encoder, "serializes
  little-endian": the low byte first.
\<close>

definition little_endian :: "16 word \<Rightarrow> 8 word list" where
  "little_endian w = [ucast w, ucast (drop_bit 8 w)]"

text \<open>
  Modelled from the spec: \<^verbatim>\<open>encode(frame: AudioFrame) -> EncodedChunk\<close>, the missing
  \<^verbatim>\<open>createBlobFromPCM\<close> of \<^verbatim>\<open>utils/audio\<close>, without the envelope.
\<close>

definition encode :: "real list \<Rightarrow> 8 word list" where
  "encode frame = concat (map (\<lambda>s. little_endian (encode_sample s)) frame)"

text \<open>
  Modelled from the spec: the first half of the missing decoder of \<^verbatim>\<open>utils/audio\<close>
  (\<^verbatim>\<open>decodeAudioData\<close>): "interprets each little-endian 16-bit pair as a sample", and
  "must tolerate chunk lengths not aligned to 2 bytes by truncating the trailing partial
  sample".
\<close>

fun samples_of :: "8 word list \<Rightarrow> 16 word list" where
  "samples_of (lo # hi # rest) = (ucast lo OR push_bit 8 (ucast hi)) # samples_of rest"
| "samples_of [lo] = []"
| "samples_of [] = []"

text \<open>
  Modelled from the spec: the second half of the missing decoder of \<^verbatim>\<open>utils/audio\<close>:
  "normalizes to float by dividing by 32768"; the 16-bit value is read as signed.
\<close>

definition decode_sample :: "16 word \<Rightarrow> real" where
  "decode_sample w = real_of_int (sint w) / 32768"

text \<open>
  Modelled from the spec: \<^verbatim>\<open>decode(chunk: EncodedChunk) -> AudioFrame\<close>, the missing
  \<^verbatim>\<open>decode\<close> and \<^verbatim>\<open>decodeAudioData\<close> of \<^verbatim>\<open>utils/audio\<close>, on the bytes of the chunk.
\<close>

definition decode :: "8 word list \<Rightarrow> real list" where
  "decode chunk = map decode_sample (samples_of chunk)"

section \<open>Concrete states and inputs\<close>

text \<open>
  A connected session before any audio: the component as a successful start leaves it
  (\<open>connected_app_reached\<close> below), with one live microphone track.
\<close>

definition connected_app :: App where
  "connected_app =
     \<lparr>sessionState = CONNECTED,
      messages = [],
      isProfessorSpeaking = False,
      errorMessage = None,
      sessionRef = Some (LiveSession 0),
      inputAudioCtxRef = Some \<lparr>sampleRate = 16000\<rparr>,
      outputAudioCtxRef = Some \<lparr>sampleRate = 24000\<rparr>,
      micStreamRef = Some [\<lparr>readyState = live\<rparr>],
      nextStartTimeRef = 0,
      audioSourcesRef = [],
      currentInputTransRef = [],
      currentOutputTransRef = [],
      messagesQueue = [],
      deviceCalls = [],
      nodesCreated = 0,
      closedSessions = []\<rparr>"

text \<open>
  The same session while one segment of two seconds, started at device time 5, is playing.
\<close>

definition playing_app :: App where
  "playing_app =
     connected_app\<lparr>isProfessorSpeaking := True,
                   nextStartTimeRef := 7,
                   audioSourcesRef := [0],
                   deviceCalls := [Start 0 5 2],
                   nodesCreated := 1\<rparr>"

text \<open>
  The same session at the end of a turn in which both speakers were transcribed.
\<close>

definition transcribed_app :: App where
  "transcribed_app =
     connected_app\<lparr>currentInputTransRef := ''Hello world'',
                   currentOutputTransRef := ''Hi there''\<rparr>"

text \<open>
  The outside at wall-clock time \<open>t\<close> and device time \<open>now\<close>, every \<^verbatim>\<open>stop()\<close> returning
  normally; \<open>idle\<close> says whether React has nothing scheduled.
\<close>

definition env_at :: "nat \<Rightarrow> real \<Rightarrow> bool \<Rightarrow> Env" where
  "env_at t now idle = \<lparr>dateNow = t, currentTime = now, reactIdle = idle, stopThrows = (\<lambda>i. False)\<rparr>"

text \<open>
  Messages: one with audio only, one with audio and the interrupted flag, one with the
  interrupted flag only, one with the turn-complete flag only.
\<close>

definition audio_message :: LiveServerMessage where
  "audio_message =
     \<lparr>inputTranscription = None, outputTranscription = None, turnComplete = False,
      inlineData = Some ''AAAA'', interrupted = False\<rparr>"



definition turn_complete_message :: LiveServerMessage where
  "turn_complete_message =
     \<lparr>inputTranscription = None, outputTranscription = None, turnComplete = True,
      inlineData = None, interrupted = False\<rparr>"

text \<open>
  The doubles nearest to 0.04 and 0.08, as durations of buffers.
\<close>

definition double_0_04 :: real where
  "double_0_04 = 5764607523034235 / 144115188075855872"

definition double_0_08 :: real where
  "double_0_08 = 5764607523034235 / 72057594037927936"

text \<open>
  Runs of handlers. On a fresh session: in \<open>sequential_steps\<close> three messages with audio
  of 0.04, 0.08 and 1 seconds arrive at device times 0, 1/64 and 1/16, and each handler goes
  on before the next message arrives; in \<open>interleaved_steps\<close> the second and the third
  message arrive, at device times 1/64 and 1/32, before the handler of the second goes on;
  in \<open>overtaken_steps\<close> two messages with audio of 2 and 3 seconds arrive at device times
  0 and 1/2, the second while the handler of the first is at its \<^verbatim>\<open>await\<close>. In
  \<open>suspended_steps\<close>, on the playing session at device time 6, an interrupted message
  arrives while the handler of a message with one second of audio is at its
  \<^verbatim>\<open>await\<close>.
\<close>

definition sequential_steps :: "HandlerStep list" where
  "sequential_steps =
     [Arrives (env_at 1000 0 True) audio_message,
      Resumes (env_at 1000 0 True) \<lparr>duration = double_0_04\<rparr> audio_message,
      Arrives (env_at 1001 (1 / 64) True) audio_message,
      Resumes (env_at 1001 (1 / 64) True) \<lparr>duration = double_0_08\<rparr> audio_message,
      Arrives (env_at 1002 (1 / 16) True) audio_message,
      Resumes (env_at 1002 (1 / 16) True) \<lparr>duration = 1\<rparr> audio_message]"

definition interleaved_steps :: "HandlerStep list" where
  "interleaved_steps =
     [Arrives (env_at 1000 0 True) audio_message,
      Resumes (env_at 1001 0 True) \<lparr>duration = double_0_04\<rparr> audio_message,
      Arrives (env_at 1002 (1 / 64) True) audio_message,
      Arrives (env_at 1003 (1 / 32) True) audio_message,
      Resumes (env_at 1004 (1 / 32) True) \<lparr>duration = double_0_08\<rparr> audio_message,
      Resumes (env_at 1005 (1 / 32) True) \<lparr>duration = 1\<rparr> audio_message]"

definition overtaken_steps :: "HandlerStep list" where
  "overtaken_steps =
     [Arrives (env_at 1000 0 True) audio_message,
      Arrives (env_at 1001 (1 / 2) True) audio_message,
      Resumes (env_at 1002 (1 / 2) True) \<lparr>duration = 2\<rparr> audio_message,
      Resumes (env_at 1003 (1 / 2) True) \<lparr>duration = 3\<rparr> audio_message]"


section \<open>Properties of the addition of doubles\<close>

lemma pow2_powr: "pow2 q = 2 powr (real_of_int q)"
  by (simp add: pow2_def powr_int)

lemma pow2_pos: "0 < pow2 q"
  by (simp add: pow2_powr)

lemma pow2_add: "pow2 (a + b) = pow2 a * pow2 b"
  by (simp add: pow2_powr powr_add)

lemma pow2_mono: "a \<le> b \<Longrightarrow> pow2 a \<le> pow2 b"
  by (simp add: pow2_powr)

lemma pow2_less_cancel: "pow2 a < pow2 b \<Longrightarrow> a < b"
  by (simp add: pow2_powr)

lemma pow2_nat: "pow2 (int n) = 2 ^ n"
  by (simp add: pow2_def)

lemma pow2_int_multiple:
  assumes "q \<le> p"
  shows "of_int m * pow2 p = of_int (m * 2 ^ nat (p - q)) * pow2 q"
proof -
  have "pow2 p = pow2 (int (nat (p - q)) + q)"
    using assms by simp
  also have "\<dots> = 2 ^ nat (p - q) * pow2 q"
    unfolding pow2_add pow2_nat ..
  finally show ?thesis by simp
qed

lemma round_half_even_of_int: "round_half_even (of_int k) = k"
  by (simp add: round_half_even_def)

lemma round_half_even_bounds:
  "\<lfloor>y\<rfloor> \<le> round_half_even y" "round_half_even y \<le> \<lfloor>y\<rfloor> + 1"
  by (simp_all add: round_half_even_def Let_def)

lemma round_half_even_mono:
  assumes "x \<le> y"
  shows "round_half_even x \<le> round_half_even y"
proof (cases "\<lfloor>x\<rfloor> = \<lfloor>y\<rfloor>")
  case True
  then show ?thesis
    using assms by (auto simp add: round_half_even_def Let_def)
next
  case False
  then have "\<lfloor>x\<rfloor> + 1 \<le> \<lfloor>y\<rfloor>"
    using assms floor_mono [of x y] by linarith
  then show ?thesis
    using round_half_even_bounds(2) [of x] round_half_even_bounds(1) [of y] by linarith
qed

text \<open>
  The binade is what its name says: \<open>2^(binade y) \<le> \<bar>y\<bar> < 2^(binade y + 1)\<close>.
\<close>

lemma binade_bounds:
  assumes "y \<noteq> 0"
  shows "pow2 (binade y) \<le> \<bar>y\<bar>" and "\<bar>y\<bar> < pow2 (binade y + 1)"
proof -
  have "pow2 (binade y) \<le> \<bar>y\<bar> \<and> \<bar>y\<bar> < pow2 (binade y + 1)"
  proof (cases "1 \<le> \<bar>y\<bar>")
    case True
    define n where "n = \<lfloor>\<bar>y\<bar>\<rfloor>"
    have n: "0 < n" using True by (simp add: n_def)
    have b: "2 ^ nat (bitlen n - 1) \<le> n" "n < 2 ^ nat (bitlen n)"
      using bitlen_bounds [OF n] by auto
    have k: "1 \<le> bitlen n"
      using n by (simp add: bitlen_alt_def)
    have e: "binade y = bitlen n - 1"
      using True by (simp add: binade_def n_def)
    have "pow2 (binade y) = 2 ^ nat (bitlen n - 1)"
      using k by (simp add: e pow2_def)
    also have "\<dots> \<le> real_of_int n"
      using b(1) by (metis of_int_le_iff of_int_numeral of_int_power)
    also have "\<dots> \<le> \<bar>y\<bar>"
      by (simp add: n_def)
    finally have lower: "pow2 (binade y) \<le> \<bar>y\<bar>" .
    have "n + 1 \<le> 2 ^ nat (bitlen n)"
      using b(2) by simp
    then have "real_of_int (n + 1) \<le> 2 ^ nat (bitlen n)"
      by (metis of_int_le_iff of_int_numeral of_int_power)
    moreover have "\<bar>y\<bar> < real_of_int (n + 1)"
      by (simp add: n_def)
    moreover have "pow2 (binade y + 1) = 2 ^ nat (bitlen n)"
      using k by (simp add: e pow2_def)
    ultimately have "\<bar>y\<bar> < pow2 (binade y + 1)"
      by linarith
    with lower show ?thesis ..
  next
    case False
    define z where "z = 1 / \<bar>y\<bar>"
    define n where "n = \<lceil>z\<rceil> - 1"
    have y: "0 < \<bar>y\<bar>" "\<bar>y\<bar> < 1"
      using assms False by auto
    have z: "1 < z"
      using y by (simp add: z_def)
    have n: "0 < n"
      using z by (simp add: n_def)
    have b: "2 ^ nat (bitlen n - 1) \<le> n" "n < 2 ^ nat (bitlen n)"
      using bitlen_bounds [OF n] by auto
    have k: "1 \<le> bitlen n"
      using n by (simp add: bitlen_alt_def)
    have e: "binade y = - bitlen n"
      using False by (simp add: binade_def n_def z_def)
    have zn: "real_of_int n < z" "z \<le> real_of_int (n + 1)"
      unfolding n_def by linarith+
    have "n + 1 \<le> 2 ^ nat (bitlen n)"
      using b(2) by simp
    then have "real_of_int (n + 1) \<le> 2 ^ nat (bitlen n)"
      by (metis of_int_le_iff of_int_numeral of_int_power)
    then have "z \<le> 2 ^ nat (bitlen n)"
      using zn(2) by linarith
    then have "1 / 2 ^ nat (bitlen n) \<le> \<bar>y\<bar>"
      using y(1) by (simp add: z_def field_simps)
    moreover have "pow2 (binade y) = 1 / 2 ^ nat (bitlen n)"
      using k by (simp add: e pow2_def)
    ultimately have lower: "pow2 (binade y) \<le> \<bar>y\<bar>"
      by simp
    have "(2::real) ^ nat (bitlen n - 1) \<le> real_of_int n"
      using b(1) by (metis of_int_le_iff of_int_numeral of_int_power)
    then have "2 ^ nat (bitlen n - 1) < z"
      using zn(1) by linarith
    then have "\<bar>y\<bar> < 1 / 2 ^ nat (bitlen n - 1)"
      using y(1) by (simp add: z_def field_simps)
    moreover have "pow2 (binade y + 1) = 1 / 2 ^ nat (bitlen n - 1)"
    proof (cases "bitlen n = 1")
      case True
      then show ?thesis by (simp add: e pow2_def)
    next
      case False
      then have "nat (bitlen n - 1) = nat (- (1 - bitlen n))" "\<not> 0 \<le> 1 - bitlen n"
        using k by auto
      then show ?thesis by (simp add: e pow2_def)
    qed
    ultimately have "\<bar>y\<bar> < pow2 (binade y + 1)"
      by simp
    with lower show ?thesis ..
  qed
  then show "pow2 (binade y) \<le> \<bar>y\<bar>" and "\<bar>y\<bar> < pow2 (binade y + 1)"
    by simp_all
qed

lemma ulp_exponent_bounds: "- 1074 \<le> ulp_exponent y" "binade y - 52 \<le> ulp_exponent y"
  by (simp_all add: ulp_exponent_def)

lemma scaled_below:
  assumes "0 < y"
  shows "y / pow2 (ulp_exponent y) < 2 ^ 53"
proof -
  have "y < pow2 (binade y + 1)"
    using binade_bounds(2) [of y] assms by simp
  also have "\<dots> \<le> pow2 (53 + ulp_exponent y)"
    using ulp_exponent_bounds(2) [of y] by (intro pow2_mono) simp
  also have "\<dots> = 2 ^ 53 * pow2 (ulp_exponent y)"
    using pow2_nat [of 53] by (simp add: pow2_add)
  finally show ?thesis
    using pow2_pos [of "ulp_exponent y"] by (simp add: field_simps)
qed

text \<open>
  Rounding a number that is not negative gives a double that is not negative.
\<close>

lemma round_double_form:
  assumes "0 \<le> y"
  shows "double_form (round_double y)"
proof (cases "y = 0")
  case True
  have "(0::real) = of_int 0 * pow2 0" by simp
  then show ?thesis
    unfolding True round_double_def by (intro exI [of _ 0]) simp
next
  case False
  then have y: "0 < y" using assms by simp
  define q where "q = ulp_exponent y"
  define r where "r = round_half_even (y / pow2 q)"
  have rd: "round_double y = of_int r * pow2 q"
    using False by (simp add: round_double_def r_def q_def)
  have "round_half_even 0 \<le> r"
    unfolding r_def using y pow2_pos [of q] by (intro round_half_even_mono) simp
  then have r0: "0 \<le> r"
    using round_half_even_of_int [of 0] by simp
  have "r \<le> round_half_even (of_int (2 ^ 53))"
    unfolding r_def q_def using scaled_below [OF y] by (intro round_half_even_mono) simp
  then have r1: "r \<le> 2 ^ 53"
    unfolding round_half_even_of_int .
  have q: "- 1074 \<le> q"
    by (simp add: q_def ulp_exponent_bounds)
  show ?thesis
  proof (cases "r = 2 ^ 53")
    case True
    have "of_int r * pow2 q = of_int (2 ^ 52) * pow2 (q + 1)"
      using pow2_nat [of 1] by (simp add: True pow2_add)
    then show ?thesis
      unfolding rd using q
      by (intro exI [of _ "2 ^ 52"] exI [of _ "q + 1"]) simp
  next
    case False
    then have "r < 2 ^ 53" using r1 by simp
    then show ?thesis
      unfolding rd using q r0
      by (intro exI [of _ r] exI [of _ q]) simp
  qed
qed

lemma round_double_nonneg:
  assumes "0 \<le> y"
  shows "0 \<le> round_double y"
proof -
  from round_double_form [OF assms] obtain m p where
    "round_double y = of_int m * pow2 p" and "0 \<le> m"
    by blast
  then show ?thesis
    using pow2_pos [of p] by (simp add: mult_nonneg_nonneg less_imp_le)
qed

lemma double_form_is_double:
  assumes "double_form x"
  shows "is_double x"
proof (cases "x = 0")
  case True
  then show ?thesis by (simp add: is_double_def)
next
  case False
  from assms obtain m p where
    x: "x = of_int m * pow2 p" and m: "0 \<le> m" "m < 2 ^ 53" and p: "- 1074 \<le> p"
    by blast
  have m0: "0 < m" using False x m(1) by (cases "m = 0") simp_all
  then have xpos: "0 < x" using x pow2_pos [of p] by simp
  have "pow2 (binade x) \<le> x"
    using binade_bounds(1) [OF False] xpos by simp
  also have "x < 2 ^ 53 * pow2 p"
    unfolding x using m(2) pow2_pos [of p]
    by (metis mult_less_cancel_right_pos of_int_less_iff of_int_numeral of_int_power)
  also have "2 ^ 53 * pow2 p = pow2 (53 + p)"
    using pow2_nat [of 53] by (simp add: pow2_add)
  finally have "binade x < 53 + p"
    by (rule pow2_less_cancel)
  define q where "q = ulp_exponent x"
  have qp: "q \<le> p"
    using p \<open>binade x < 53 + p\<close> by (simp add: q_def ulp_exponent_def)
  define k where "k = m * 2 ^ nat (p - q)"
  have "x = of_int k * pow2 q"
    unfolding k_def using x pow2_int_multiple [OF qp, of m] by simp
  then have "x / pow2 q = of_int k"
    using pow2_pos [of q] by simp
  then show ?thesis
    by (simp add: is_double_def q_def [symmetric])
qed

lemma is_double_double_form:
  assumes "is_double x" and "0 \<le> x"
  shows "double_form x"
proof (cases "x = 0")
  case True
  have "(0::real) = of_int 0 * pow2 0" by simp
  then show ?thesis
    unfolding True by (intro exI [of _ 0]) simp
next
  case False
  then have xpos: "0 < x" using assms(2) by simp
  define q where "q = ulp_exponent x"
  define m where "m = \<lfloor>x / pow2 q\<rfloor>"
  have int: "of_int m = x / pow2 q"
    using assms(1) False by (simp add: is_double_def m_def q_def)
  then have x: "x = of_int m * pow2 q"
    using pow2_pos [of q] by (simp add: field_simps)
  have "0 \<le> x / pow2 q"
    using xpos pow2_pos [of q] by simp
  then have m0: "0 \<le> m"
    by (simp add: m_def)
  have "real_of_int m < 2 ^ 53"
    unfolding int q_def by (rule scaled_below [OF xpos])
  then have m1: "m < 2 ^ 53"
    by (metis of_int_less_iff of_int_numeral of_int_power)
  show ?thesis
    using x m0 m1 ulp_exponent_bounds(1) [of x]
    by (intro exI [of _ m] exI [of _ q]) (simp add: q_def)
qed

text \<open>
  Rounding to the nearest double does not cross a double: a double that is not above
  \<open>y\<close> is not above the double nearest to \<open>y\<close>.
\<close>

lemma round_double_above:
  assumes form: "double_form x" and xy: "x \<le> y"
  shows "x \<le> round_double y"
proof (cases "x = 0")
  case True
  have "0 \<le> y" using xy True by simp
  then show ?thesis using round_double_nonneg True by simp
next
  case False
  from form obtain m p where
    x: "x = of_int m * pow2 p" and m: "0 \<le> m" "m < 2 ^ 53" and p: "- 1074 \<le> p"
    by blast
  have m0: "0 < m" using False x m(1) by (cases "m = 0") simp_all
  then have xpos: "0 < x" using x pow2_pos [of p] by simp
  then have ypos: "0 < y" using xy by simp
  define q where "q = ulp_exponent y"
  have rd: "round_double y = of_int (round_half_even (y / pow2 q)) * pow2 q"
    using ypos by (simp add: round_double_def q_def)
  show ?thesis
  proof (cases "q \<le> p")
    case True
    define k where "k = m * 2 ^ nat (p - q)"
    have xk: "x = of_int k * pow2 q"
      unfolding x k_def by (rule pow2_int_multiple [OF True])
    have "of_int k \<le> y / pow2 q"
      using xy pow2_pos [of q] by (simp add: xk field_simps)
    then have "round_half_even (of_int k) \<le> round_half_even (y / pow2 q)"
      by (rule round_half_even_mono)
    then have "k \<le> round_half_even (y / pow2 q)"
      unfolding round_half_even_of_int .
    then have "of_int k * pow2 q \<le> of_int (round_half_even (y / pow2 q)) * pow2 q"
      using pow2_pos [of q] by simp
    then show ?thesis
      unfolding rd xk .
  next
    case False
    then have qe: "q = binade y - 52" and pq: "p < q"
      using p by (simp_all add: q_def ulp_exponent_def)
    have "x < 2 ^ 53 * pow2 p"
      unfolding x using m(2) pow2_pos [of p]
      by (metis mult_less_cancel_right_pos of_int_less_iff of_int_numeral of_int_power)
    also have "2 ^ 53 * pow2 p = pow2 (53 + p)"
      using pow2_nat [of 53] by (simp add: pow2_add)
    also have "\<dots> \<le> pow2 (52 + q)"
      using pq by (intro pow2_mono) simp
    finally have below: "x < pow2 (52 + q)" .
    define k :: int where "k = 2 ^ 52"
    have "pow2 (52 + q) = pow2 (int 52) * pow2 q"
      by (simp only: pow2_add of_nat_numeral)
    then have grid: "pow2 (52 + q) = of_int k * pow2 q"
      unfolding pow2_nat k_def by simp
    have "binade y = 52 + q"
      by (simp add: qe)
    then have "pow2 (52 + q) \<le> y"
      using binade_bounds(1) [of y] ypos by simp
    then have "of_int k * pow2 q \<le> y"
      unfolding grid .
    then have "of_int k \<le> y / pow2 q"
      using pow2_pos [of q] by (simp add: field_simps)
    then have "round_half_even (of_int k) \<le> round_half_even (y / pow2 q)"
      by (rule round_half_even_mono)
    then have "k \<le> round_half_even (y / pow2 q)"
      unfolding round_half_even_of_int .
    then have "of_int k * pow2 q \<le> of_int (round_half_even (y / pow2 q)) * pow2 q"
      using pow2_pos [of q] by simp
    then show ?thesis
      unfolding rd using below grid by linarith
  qed
qed

text \<open>
  Rounding to the nearest double moves a number by at most half a unit in its last place.
\<close>

lemma round_half_even_error: "\<bar>of_int (round_half_even y) - y\<bar> \<le> 1 / 2"
  unfolding round_half_even_def Let_def by (simp; linarith)

lemma round_double_error: "\<bar>round_double y - y\<bar> \<le> pow2 (ulp_exponent y) / 2"
proof (cases "y = 0")
  case True
  then show ?thesis
    using pow2_pos [of "ulp_exponent 0"] by (simp add: round_double_def)
next
  case False
  define q where "q = ulp_exponent y"
  define z where "z = y / pow2 q"
  have y: "y = z * pow2 q"
    using pow2_pos [of q] by (simp add: z_def)
  have rd: "round_double y = of_int (round_half_even z) * pow2 q"
    using False by (simp add: round_double_def q_def z_def)
  have "round_double y - y = (of_int (round_half_even z) - z) * pow2 q"
    unfolding rd using y by (simp add: algebra_simps)
  then have "\<bar>round_double y - y\<bar> = \<bar>of_int (round_half_even z) - z\<bar> * pow2 q"
    using pow2_pos [of q] by (simp add: abs_mult)
  also have "\<dots> \<le> 1 / 2 * pow2 q"
    using round_half_even_error [of z] pow2_pos [of q]
    by (intro mult_right_mono) simp_all
  finally show ?thesis
    by (simp add: q_def)
qed

text \<open>
  Advancing the cursor: adding a duration that is not negative to a double that is not
  negative gives a double that is not below it.
\<close>

lemma plus_double_step:
  assumes "is_double x" and "0 \<le> x" and "0 \<le> d"
  shows "x \<le> plus_double x d" and "is_double (plus_double x d)" and "0 \<le> plus_double x d"
proof -
  have "x \<le> x + d" using assms(3) by simp
  then show "x \<le> plus_double x d"
    unfolding plus_double_def
    by (rule round_double_above [OF is_double_double_form [OF assms(1,2)]])
  have sum: "0 \<le> x + d" using assms(2,3) by simp
  show "is_double (plus_double x d)"
    unfolding plus_double_def
    by (rule double_form_is_double [OF round_double_form [OF sum]])
  show "0 \<le> plus_double x d"
    unfolding plus_double_def by (rule round_double_nonneg [OF sum])
qed

text \<open>
  The sums the examples need. The last three are the source's \<^verbatim>\<open>0 + 0.04\<close>,
  \<^verbatim>\<open>0.04 + 0.08\<close> (which is \<^verbatim>\<open>0.12\<close>, below the exact sum of the two doubles by
  \<open>2^-57\<close>) and \<^verbatim>\<open>0.12 + 1\<close>.
\<close>

lemma plus_double_examples:
  "plus_double 0 1 = 1"
  "plus_double 5 1 = 6"
  "plus_double 5 2 = 7"
  "plus_double (1 / 2) 2 = 5 / 2"
  "plus_double (5 / 2) 3 = 11 / 2"
  "plus_double 0 double_0_04 = double_0_04"
  "plus_double double_0_04 double_0_08 = 1080863910568919 / 9007199254740992"
  by code_simp+

lemma double_examples:
  "is_double 0" "is_double double_0_04" "is_double double_0_08" "is_double 1"
  "\<not> is_double (1 / 10)"
  by code_simp+

section \<open>Properties of stopAllAudio\<close>

lemma forEach_try_stop:
  "forEach (try_stop e) ids calls =
     Inr (calls @ map Stop (filter (\<lambda>i. \<not> stopThrows e i) ids))"
  by (induction ids arbitrary: calls) (simp_all add: try_stop_def source_stop_def)

lemma stopAllAudio_eq:
  "stopAllAudio e s =
     Inr (s\<lparr>deviceCalls := deviceCalls s @ map Stop (filter (\<lambda>i. \<not> stopThrows e i) (audioSourcesRef s)),
            audioSourcesRef := [],
            nextStartTimeRef := 0,
            isProfessorSpeaking := False\<rparr>)"
  by (simp add: stopAllAudio_def forEach_try_stop)

text \<open>
  Without the \<^verbatim>\<open>try\<close> around it, one \<^verbatim>\<open>stop()\<close> that raises would end the loop: the
  exception escapes \<open>forEach\<close> exactly when some node of the set raises.
\<close>

lemma forEach_source_stop_escapes:
  "(\<exists>ex. forEach (source_stop e) ids calls = Inl ex) \<longleftrightarrow> (\<exists>i \<in> set ids. stopThrows e i)"
  by (induction ids arbitrary: calls) (auto simp: source_stop_def split: sum.splits)

text \<open>
  C8. \<^verbatim>\<open>stopAllAudio\<close> never fails. Whatever the set of sources in flight holds and
  whichever of them raise when stopped (a node that has already finished, for one), the
  function returns normally: every node whose \<^verbatim>\<open>stop()\<close> does not raise is stopped, in
  the order of the set, the loop going on past each one that raises; the set is empty
  afterwards; and nothing is surfaced, the error message and the session state being what
  they were.
\<close>

theorem stopAllAudio_never_fails:
  "\<exists>s1. stopAllAudio e s = Inr s1
      \<and> deviceCalls s1 = deviceCalls s @ map Stop (filter (\<lambda>i. \<not> stopThrows e i) (audioSourcesRef s))
      \<and> audioSourcesRef s1 = []
      \<and> errorMessage s1 = errorMessage s
      \<and> sessionState s1 = sessionState s"
proof -
  have "forEach (try_stop e) (audioSourcesRef s) (deviceCalls s) =
          Inr (deviceCalls s @ map Stop (filter (\<lambda>i. \<not> stopThrows e i) (audioSourcesRef s)))"
    by (rule forEach_try_stop)
  then show ?thesis
    by (simp add: stopAllAudio_def)
qed

text \<open>
  C10. \<^verbatim>\<open>stopAllAudio\<close> is idempotent. The first call returns a state whose set of
  sources is empty, whose cursor is 0 and whose speaking flag is false; a second call, made
  right after it (whatever the outside is then), returns exactly that state.
\<close>

theorem stopAllAudio_idempotent:
  "\<exists>s1. stopAllAudio e s = Inr s1
      \<and> audioSourcesRef s1 = []
      \<and> nextStartTimeRef s1 = 0
      \<and> \<not> isProfessorSpeaking s1
      \<and> stopAllAudio e' s1 = Inr s1"
proof -
  define s1 where
    "s1 = s\<lparr>deviceCalls := deviceCalls s @ map Stop (filter (\<lambda>i. \<not> stopThrows e i) (audioSourcesRef s)),
            audioSourcesRef := [],
            nextStartTimeRef := 0,
            isProfessorSpeaking := False\<rparr>"
  have first: "stopAllAudio e s = Inr s1"
    by (simp add: stopAllAudio_eq s1_def)
  have "forEach (try_stop e') (audioSourcesRef s1) (deviceCalls s1) = Inr (deviceCalls s1)"
    by (simp add: s1_def)
  then have second: "stopAllAudio e' s1 = Inr s1"
    by (simp add: stopAllAudio_def s1_def)
  from first second show ?thesis
    by (simp add: s1_def)
qed

section \<open>Properties of the session lifecycle\<close>

text \<open>
  A successful start, from the mounted component: the start up to its first \<^verbatim>\<open>await\<close>,
  the microphone stream, the open event and the session.
\<close>

lemma connected_app_reached:
  "handleStartSession_session (LiveSession 0)
     (onopen
       (handleStartSession_stream [\<lparr>readyState = live\<rparr>]
         (handleStartSession_begin initial_app))) = connected_app"
  by (simp add: handleStartSession_session_def onopen_def handleStartSession_stream_def
        handleStartSession_begin_def initial_app_def connected_app_def)

text \<open>
  The states the later examples use are reached from it by handling messages: the playing
  session by one message with two seconds of audio arriving at device time 5, the
  transcribed one by a message with a fragment for each speaker.
\<close>

lemma playing_app_reached:
  "onmessage (env_at 900 5 True) \<lparr>duration = 2\<rparr> audio_message connected_app = Inr playing_app"
  by (simp add: onmessage_def onmessage_before_await_def onmessage_after_await_def
        handle_transcriptions_def append_transcriptions_def has_audio_def carries_audio_def
        handle_interrupted_def audio_begin_def audio_resume_def plus_double_examples
        audio_message_def playing_app_def connected_app_def env_at_def Let_def)

lemma transcribed_app_reached:
  "onmessage (env_at 900 5 True) \<lparr>duration = 0\<rparr>
     \<lparr>inputTranscription = Some ''Hello world'', outputTranscription = Some ''Hi there'',
      turnComplete = False, inlineData = None, interrupted = False\<rparr>
     connected_app = Inr transcribed_app"
  by (simp add: onmessage_def onmessage_before_await_def
        handle_transcriptions_def append_transcriptions_def has_audio_def carries_audio_def
        handle_interrupted_def transcribed_app_def connected_app_def Let_def)

text \<open>
  C9. When the close event of the remote service fires, only the session state changes, to
  \<open>DISCONNECTED\<close>: the microphone tracks, the set of sources in flight, the cursor, the
  speaking flag, both transcript accumulators, the message log and its queued updates are
  what they were, no call is made to the output device and no session is closed by the
  component. The state after \<^verbatim>\<open>onclose\<close> is the state before it with that one field
  set. The whole shutdown is the stop operation's: \<^verbatim>\<open>handleStopSession\<close> stops every
  track of the stream it holds, empties the set, resets the cursor and the flag and ends
  \<open>DISCONNECTED\<close>; the transport error, the failed start, the end of a segment and the
  message handler leave the microphone tracks as they are.
\<close>

theorem onclose_changes_only_sessionState:
  "sessionState (onclose s) = DISCONNECTED
   \<and> micStreamRef (onclose s) = micStreamRef s
   \<and> audioSourcesRef (onclose s) = audioSourcesRef s
   \<and> nextStartTimeRef (onclose s) = nextStartTimeRef s
   \<and> isProfessorSpeaking (onclose s) = isProfessorSpeaking s
   \<and> currentInputTransRef (onclose s) = currentInputTransRef s
   \<and> currentOutputTransRef (onclose s) = currentOutputTransRef s
   \<and> messages (onclose s) = messages s
   \<and> messagesQueue (onclose s) = messagesQueue s
   \<and> deviceCalls (onclose s) = deviceCalls s
   \<and> closedSessions (onclose s) = closedSessions s
   \<and> onclose s = s\<lparr>sessionState := DISCONNECTED\<rparr>
   \<and> (\<exists>s'. handleStopSession e s = Inr s'
         \<and> sessionState s' = DISCONNECTED
         \<and> micStreamRef s' = map_option (map track_stop) (micStreamRef s)
         \<and> audioSourcesRef s' = []
         \<and> nextStartTimeRef s' = 0
         \<and> \<not> isProfessorSpeaking s')
   \<and> micStreamRef (onerror s) = micStreamRef s
   \<and> micStreamRef (start_failed err_message s) = micStreamRef s
   \<and> micStreamRef (onended source s) = micStreamRef s
   \<and> (\<exists>s'. onmessage e b m s = Inr s' \<and> micStreamRef s' = micStreamRef s)"
proof -
  have stop: "\<exists>s'. handleStopSession e s = Inr s'
         \<and> sessionState s' = DISCONNECTED
         \<and> micStreamRef s' = map_option (map track_stop) (micStreamRef s)
         \<and> audioSourcesRef s' = []
         \<and> nextStartTimeRef s' = 0
         \<and> \<not> isProfessorSpeaking s'"
    by (simp add: handleStopSession_def stopAllAudio_eq Let_def split: option.splits)
  have transcripts: "micStreamRef (handle_transcriptions e m s) = micStreamRef s"
    by (simp add: handle_transcriptions_def append_transcriptions_def turn_complete_def
          setMessages_def Let_def split: option.splits)
  have message: "\<exists>s'. onmessage e b m s = Inr s' \<and> micStreamRef s' = micStreamRef s"
    using transcripts
    by (simp add: onmessage_def onmessage_before_await_def onmessage_after_await_def
          handle_interrupted_def stopAllAudio_eq audio_begin_def audio_resume_def Let_def)
  have rest: "micStreamRef (onerror s) = micStreamRef s
      \<and> micStreamRef (start_failed err_message s) = micStreamRef s
      \<and> micStreamRef (onended source s) = micStreamRef s"
    by (simp add: onerror_def start_failed_def onended_def Let_def)
  from stop message rest show ?thesis
    by (simp add: onclose_def)
qed

text \<open>
  C6. The stop operation from the Connected state. With the session state \<open>CONNECTED\<close>
  and the microphone stream acquired at the start held in \<^verbatim>\<open>micStreamRef\<close>,
  \<^verbatim>\<open>handleStopSession\<close> returns normally, whichever nodes raise when stopped, in a state
  that is \<open>DISCONNECTED\<close>, where every track of the stream has been stopped (its
  \<^verbatim>\<open>readyState\<close> is \<open>ended\<close>), the set of sources in flight is empty and the cursor is 0.
\<close>

theorem handleStopSession_from_connected:
  assumes "sessionState s = CONNECTED"
    and "micStreamRef s = Some tracks"
  shows "\<exists>s' tracks'. handleStopSession e s = Inr s'
           \<and> sessionState s' = DISCONNECTED
           \<and> micStreamRef s' = Some tracks'
           \<and> length tracks' = length tracks
           \<and> (\<forall>t \<in> set tracks'. readyState t = ended)
           \<and> audioSourcesRef s' = []
           \<and> nextStartTimeRef s' = 0"
  using assms
  by (auto simp: handleStopSession_def stopAllAudio_eq Let_def track_stop_def split: option.splits)

theorem handleStopSession_from_connected_witness:
  "sessionState playing_app = CONNECTED
   \<and> micStreamRef playing_app = Some [\<lparr>readyState = live\<rparr>]
   \<and> (\<exists>s' tracks'. handleStopSession (env_at 1000 6 True) playing_app = Inr s'
           \<and> sessionState s' = DISCONNECTED
           \<and> micStreamRef s' = Some tracks'
           \<and> length tracks' = length [\<lparr>readyState = live\<rparr>]
           \<and> (\<forall>t \<in> set tracks'. readyState t = ended)
           \<and> audioSourcesRef s' = []
           \<and> nextStartTimeRef s' = 0)"
proof -
  have c: "sessionState playing_app = CONNECTED"
    by (simp add: playing_app_def connected_app_def)
  have m: "micStreamRef playing_app = Some [\<lparr>readyState = live\<rparr>]"
    by (simp add: playing_app_def connected_app_def)
  from c m handleStopSession_from_connected [OF c m, of "env_at 1000 6 True"]
  show ?thesis by (intro conjI)
qed

text \<open>
  C2. When the transport error fires, the session state becomes \<open>ERROR\<close> and the message
  "Connection lost. Please check your internet and try again." is surfaced, which is not
  the message a setup failure surfaces when its error carries none. The resources are not
  released: in every state the microphone tracks, the set of sources in flight, the cursor,
  the speaking flag, the calls made to the device and the session are after \<^verbatim>\<open>onerror\<close>
  what they were before. While a segment is playing, the microphone track is still live
  after the error, the segment is still in the set and was not stopped, and the cursor is
  still 7. The release exists in the component: on the same state \<^verbatim>\<open>handleStopSession\<close>
  ends the track, stops the segment, empties the set and resets the cursor;
  \<^verbatim>\<open>onerror\<close> does not run it. In the \<open>ERROR\<close> state the component offers the start
  only, and the start does not release either: up to the call of \<^verbatim>\<open>ai.live.connect\<close>
  it stores the new stream (here one of two tracks) in \<^verbatim>\<open>micStreamRef\<close>, in place of
  the old one whose track is still live and is held nowhere else, and it keeps the old
  segment in the set and the cursor at 7.
\<close>

theorem onerror_releases_nothing:
  "sessionState (onerror s) = ERROR
   \<and> errorMessage (onerror s) = Some ''Connection lost. Please check your internet and try again.''
   \<and> errorMessage (onerror s) \<noteq> errorMessage (start_failed None s0)
   \<and> micStreamRef (onerror s) = micStreamRef s
   \<and> audioSourcesRef (onerror s) = audioSourcesRef s
   \<and> nextStartTimeRef (onerror s) = nextStartTimeRef s
   \<and> isProfessorSpeaking (onerror s) = isProfessorSpeaking s
   \<and> deviceCalls (onerror s) = deviceCalls s
   \<and> sessionRef (onerror s) = sessionRef s
   \<and> closedSessions (onerror s) = closedSessions s
   \<and> onerror s = s\<lparr>errorMessage := errorMessage (onerror s), sessionState := ERROR\<rparr>
   \<and> sessionState (onerror playing_app) = ERROR
   \<and> micStreamRef (onerror playing_app) = Some [\<lparr>readyState = live\<rparr>]
   \<and> audioSourcesRef (onerror playing_app) = [0]
   \<and> nextStartTimeRef (onerror playing_app) = 7
   \<and> deviceCalls (onerror playing_app) = [Start 0 5 2]
   \<and> \<not> (audioSourcesRef (onerror playing_app) = [] \<and> nextStartTimeRef (onerror playing_app) = 0)
   \<and> handleStopSession (env_at 1000 6 True) playing_app =
       Inr (playing_app\<lparr>sessionState := DISCONNECTED,
                          sessionRef := None,
                          closedSessions := [LiveSession 0],
                          micStreamRef := Some [\<lparr>readyState = ended\<rparr>],
                          audioSourcesRef := [],
                          nextStartTimeRef := 0,
                          isProfessorSpeaking := False,
                          deviceCalls := [Start 0 5 2, Stop 0]\<rparr>)
   \<and> handleStartSession_stream [\<lparr>readyState = live\<rparr>, \<lparr>readyState = live\<rparr>]
       (handleStartSession_begin (onerror playing_app)) =
       playing_app\<lparr>sessionState := CONNECTING,
                    micStreamRef := Some [\<lparr>readyState = live\<rparr>, \<lparr>readyState = live\<rparr>]\<rparr>
   \<and> audioSourcesRef
       (handleStartSession_stream [\<lparr>readyState = live\<rparr>, \<lparr>readyState = live\<rparr>]
         (handleStartSession_begin (onerror playing_app))) = [0]
   \<and> nextStartTimeRef
       (handleStartSession_stream [\<lparr>readyState = live\<rparr>, \<lparr>readyState = live\<rparr>]
         (handleStartSession_begin (onerror playing_app))) = 7
   \<and> deviceCalls
       (handleStartSession_stream [\<lparr>readyState = live\<rparr>, \<lparr>readyState = live\<rparr>]
         (handleStartSession_begin (onerror playing_app))) = [Start 0 5 2]"
proof -
  have frame: "sessionState (onerror s) = ERROR
   \<and> errorMessage (onerror s) = Some ''Connection lost. Please check your internet and try again.''
   \<and> errorMessage (onerror s) \<noteq> errorMessage (start_failed None s0)
   \<and> micStreamRef (onerror s) = micStreamRef s
   \<and> audioSourcesRef (onerror s) = audioSourcesRef s
   \<and> nextStartTimeRef (onerror s) = nextStartTimeRef s
   \<and> isProfessorSpeaking (onerror s) = isProfessorSpeaking s
   \<and> deviceCalls (onerror s) = deviceCalls s
   \<and> sessionRef (onerror s) = sessionRef s
   \<and> closedSessions (onerror s) = closedSessions s
   \<and> onerror s = s\<lparr>errorMessage := errorMessage (onerror s), sessionState := ERROR\<rparr>"
    by (simp add: onerror_def start_failed_def)
  have playing: "sessionState (onerror playing_app) = ERROR
   \<and> micStreamRef (onerror playing_app) = Some [\<lparr>readyState = live\<rparr>]
   \<and> audioSourcesRef (onerror playing_app) = [0]
   \<and> nextStartTimeRef (onerror playing_app) = 7
   \<and> deviceCalls (onerror playing_app) = [Start 0 5 2]
   \<and> \<not> (audioSourcesRef (onerror playing_app) = [] \<and> nextStartTimeRef (onerror playing_app) = 0)"
    by (simp add: onerror_def playing_app_def connected_app_def)
  have stop: "handleStopSession (env_at 1000 6 True) playing_app =
       Inr (playing_app\<lparr>sessionState := DISCONNECTED,
                          sessionRef := None,
                          closedSessions := [LiveSession 0],
                          micStreamRef := Some [\<lparr>readyState = ended\<rparr>],
                          audioSourcesRef := [],
                          nextStartTimeRef := 0,
                          isProfessorSpeaking := False,
                          deviceCalls := [Start 0 5 2, Stop 0]\<rparr>)"
    by (simp add: handleStopSession_def stopAllAudio_eq track_stop_def playing_app_def
          connected_app_def env_at_def Let_def)
  have restart: "handleStartSession_stream [\<lparr>readyState = live\<rparr>, \<lparr>readyState = live\<rparr>]
       (handleStartSession_begin (onerror playing_app)) =
       playing_app\<lparr>sessionState := CONNECTING,
                    micStreamRef := Some [\<lparr>readyState = live\<rparr>, \<lparr>readyState = live\<rparr>]\<rparr>"
    by (simp add: handleStartSession_stream_def handleStartSession_begin_def onerror_def
          playing_app_def connected_app_def)
  have kept: "audioSourcesRef
       (handleStartSession_stream [\<lparr>readyState = live\<rparr>, \<lparr>readyState = live\<rparr>]
         (handleStartSession_begin (onerror playing_app))) = [0]
   \<and> nextStartTimeRef
       (handleStartSession_stream [\<lparr>readyState = live\<rparr>, \<lparr>readyState = live\<rparr>]
         (handleStartSession_begin (onerror playing_app))) = 7
   \<and> deviceCalls
       (handleStartSession_stream [\<lparr>readyState = live\<rparr>, \<lparr>readyState = live\<rparr>]
         (handleStartSession_begin (onerror playing_app))) = [Start 0 5 2]"
    unfolding restart by (simp add: playing_app_def connected_app_def)
  from frame playing stop restart kept show ?thesis
    by blast
qed

section \<open>Properties of the inbound message handler\<close>

lemma setMessages_playback:
  "nextStartTimeRef (setMessages e r s) = nextStartTimeRef s"
  "audioSourcesRef (setMessages e r s) = audioSourcesRef s"
  "deviceCalls (setMessages e r s) = deviceCalls s"
  "nodesCreated (setMessages e r s) = nodesCreated s"
  "outputAudioCtxRef (setMessages e r s) = outputAudioCtxRef s"
  "isProfessorSpeaking (setMessages e r s) = isProfessorSpeaking s"
  by (simp_all add: setMessages_def)

lemma handle_transcriptions_playback:
  "nextStartTimeRef (handle_transcriptions e m s) = nextStartTimeRef s"
  "audioSourcesRef (handle_transcriptions e m s) = audioSourcesRef s"
  "deviceCalls (handle_transcriptions e m s) = deviceCalls s"
  "nodesCreated (handle_transcriptions e m s) = nodesCreated s"
  "outputAudioCtxRef (handle_transcriptions e m s) = outputAudioCtxRef s"
  "isProfessorSpeaking (handle_transcriptions e m s) = isProfessorSpeaking s"
  by (simp_all add: handle_transcriptions_def append_transcriptions_def turn_complete_def
        setMessages_playback Let_def split: option.splits)

lemma has_audio_handle_transcriptions:
  "has_audio m (handle_transcriptions e m' s) = has_audio m s"
  by (simp add: has_audio_def handle_transcriptions_playback)






subsection \<open>Gapless scheduling\<close>

lemma handler_steps_append:
  "handler_steps (xs @ ys) s =
     (case handler_steps xs s of Inl ex \<Rightarrow> Inl ex | Inr s' \<Rightarrow> handler_steps ys s')"
proof (induction xs arbitrary: s)
  case Nil
  show ?case by simp
next
  case (Cons x xs)
  show ?case
    by (cases x) (simp_all add: Cons.IH split: sum.splits)
qed

text \<open>
  A step of a message that is not interrupted: the arrival clamps the cursor if the message
  has audio, the handler that goes on starts its segment at the cursor and advances it.
\<close>

lemma arrives_uninterrupted:
  assumes "\<not> interrupted m"
  shows "handler_steps (Arrives e m # rest) s =
           handler_steps rest
             (if has_audio m s then audio_begin e (handle_transcriptions e m s)
              else handle_transcriptions e m s)"
  using assms
  by (simp add: onmessage_before_await_def handle_interrupted_def
        has_audio_handle_transcriptions Let_def)

lemma resumes_uninterrupted:
  assumes "\<not> interrupted m"
  shows "handler_steps (Resumes e b m # rest) s = handler_steps rest (audio_resume b s)"
  using assms by (simp add: onmessage_after_await_def handle_interrupted_def)

lemma arrives_fields:
  "deviceCalls (if has_audio m s then audio_begin e (handle_transcriptions e m s)
                else handle_transcriptions e m s) = deviceCalls s"
  "nodesCreated (if has_audio m s then audio_begin e (handle_transcriptions e m s)
                 else handle_transcriptions e m s) = nodesCreated s"
  "nextStartTimeRef (if has_audio m s then audio_begin e (handle_transcriptions e m s)
                     else handle_transcriptions e m s) =
     (if has_audio m s then max (nextStartTimeRef s) (currentTime e) else nextStartTimeRef s)"
  by (simp_all add: audio_begin_def handle_transcriptions_playback)

lemma resumes_fields:
  "deviceCalls (audio_resume b s) =
     deviceCalls s @ [Start (nodesCreated s) (nextStartTimeRef s) (duration b)]"
  "nodesCreated (audio_resume b s) = Suc (nodesCreated s)"
  "nextStartTimeRef (audio_resume b s) = plus_double (nextStartTimeRef s) (duration b)"
  by (simp_all add: audio_resume_def Let_def)

text \<open>
  Arrivals alone make no call to the device.
\<close>

lemma arrivals_run:
  "list_all uninterrupted steps \<Longrightarrow> durations_of steps = [] \<Longrightarrow>
   \<exists>s'. handler_steps steps s = Inr s'
      \<and> deviceCalls s' = deviceCalls s
      \<and> nodesCreated s' = nodesCreated s"
proof (induction steps arbitrary: s)
  case Nil
  then show ?case by simp
next
  case (Cons step steps)
  show ?case
  proof (cases step)
    case (Arrives e m)
    define s2 where
      "s2 = (if has_audio m s then audio_begin e (handle_transcriptions e m s)
             else handle_transcriptions e m s)"
    have "\<not> interrupted m"
      using Cons.prems(1) Arrives by simp
    then have step: "handler_steps (step # steps) s = handler_steps steps s2"
      unfolding Arrives s2_def by (rule arrives_uninterrupted)
    have same: "deviceCalls s2 = deviceCalls s" "nodesCreated s2 = nodesCreated s"
      unfolding s2_def by (rule arrives_fields)+
    have "list_all uninterrupted steps" "durations_of steps = []"
      using Cons.prems Arrives by simp_all
    from Cons.IH [OF this, of s2] show ?thesis
      unfolding step same .
  next
    case (Resumes e b m)
    then show ?thesis using Cons.prems(2) by simp
  qed
qed

text \<open>
  A run in which no clamp moves the cursor starts its segments one at the computed end of
  the other, whatever the order of arrivals and of handlers going on.
\<close>

lemma exact_run:
  "list_all uninterrupted steps \<Longrightarrow> no_idle_gap (nextStartTimeRef s) steps \<Longrightarrow>
   \<exists>s'. handler_steps steps s = Inr s'
      \<and> deviceCalls s' =
          deviceCalls s @ running_starts (nodesCreated s) (nextStartTimeRef s) (durations_of steps)
      \<and> nextStartTimeRef s' = foldl plus_double (nextStartTimeRef s) (durations_of steps)"
proof (induction steps arbitrary: s)
  case Nil
  then show ?case by simp
next
  case (Cons step steps)
  show ?case
  proof (cases step)
    case (Arrives e m)
    define s2 where
      "s2 = (if has_audio m s then audio_begin e (handle_transcriptions e m s)
             else handle_transcriptions e m s)"
    have "\<not> interrupted m"
      using Cons.prems(1) Arrives by simp
    then have step: "handler_steps (step # steps) s = handler_steps steps s2"
      unfolding Arrives s2_def by (rule arrives_uninterrupted)
    have same: "deviceCalls s2 = deviceCalls s" "nodesCreated s2 = nodesCreated s"
      unfolding s2_def by (rule arrives_fields)+
    have "has_audio m s \<Longrightarrow> currentTime e \<le> nextStartTimeRef s"
      using Cons.prems(2) Arrives by (simp add: has_audio_def)
    then have cur: "nextStartTimeRef s2 = nextStartTimeRef s"
      unfolding s2_def arrives_fields by simp
    have "list_all uninterrupted steps" "no_idle_gap (nextStartTimeRef s2) steps"
      using Cons.prems Arrives by (simp_all add: cur)
    from Cons.IH [OF this] show ?thesis
      unfolding step same cur using Arrives by simp
  next
    case (Resumes e b m)
    define s2 where "s2 = audio_resume b s"
    have "\<not> interrupted m"
      using Cons.prems(1) Resumes by simp
    then have step: "handler_steps (step # steps) s = handler_steps steps s2"
      unfolding Resumes s2_def by (rule resumes_uninterrupted)
    have fields:
      "deviceCalls s2 = deviceCalls s @ [Start (nodesCreated s) (nextStartTimeRef s) (duration b)]"
      "nodesCreated s2 = Suc (nodesCreated s)"
      "nextStartTimeRef s2 = plus_double (nextStartTimeRef s) (duration b)"
      unfolding s2_def by (rule resumes_fields)+
    have "list_all uninterrupted steps" "no_idle_gap (nextStartTimeRef s2) steps"
      using Cons.prems Resumes by (simp_all add: fields)
    from Cons.IH [OF this] show ?thesis
      unfolding step fields using Resumes by simp
  qed
qed

lemma running_starts_map:
  "running_starts n c ds =
     map (\<lambda>k. Start (n + k) (cursor_after c ds k) (ds ! k)) [0..<length ds]"
proof (induction ds arbitrary: n c)
  case Nil
  show ?case by simp
next
  case (Cons d ds)
  have "[0..<length (d # ds)] = 0 # map Suc [0..<length ds]"
    by (simp add: upt_conv_Cons map_Suc_upt del: upt_Suc)
  then show ?case
    by (simp add: Cons.IH cursor_after_def comp_def)
qed

lemma cursor_after_Suc:
  assumes "k < length ds"
  shows "cursor_after c ds (Suc k) = plus_double (cursor_after c ds k) (ds ! k)"
  using assms by (simp add: cursor_after_def take_Suc_conv_app_nth)

lemma cursor_after_double:
  assumes "is_double c" and "0 \<le> c" and "\<forall>d \<in> set ds. 0 \<le> d"
  shows "k \<le> length ds \<Longrightarrow> is_double (cursor_after c ds k) \<and> 0 \<le> cursor_after c ds k"
proof (induction k)
  case 0
  show ?case using assms(1,2) by (simp add: cursor_after_def)
next
  case (Suc k)
  then have k: "k < length ds" by simp
  then have "0 \<le> ds ! k" using assms(3) by simp
  with Suc k show ?case
    by (simp add: cursor_after_Suc plus_double_step)
qed

lemma cursor_after_mono:
  assumes "is_double c" and "0 \<le> c" and "\<forall>d \<in> set ds. 0 \<le> d"
  shows "i \<le> j \<Longrightarrow> j \<le> length ds \<Longrightarrow> cursor_after c ds i \<le> cursor_after c ds j"
proof (induction j)
  case 0
  then show ?case by simp
next
  case (Suc j)
  show ?case
  proof (cases "i = Suc j")
    case True
    then show ?thesis by simp
  next
    case False
    then have le: "cursor_after c ds i \<le> cursor_after c ds j"
      using Suc by simp
    have j: "j < length ds" using Suc.prems(2) by simp
    then have "0 \<le> ds ! j" using assms(3) by simp
    moreover have "is_double (cursor_after c ds j) \<and> 0 \<le> cursor_after c ds j"
      using cursor_after_double [OF assms] j by simp
    ultimately have "cursor_after c ds j \<le> cursor_after c ds (Suc j)"
      unfolding cursor_after_Suc [OF j] by (simp add: plus_double_step)
    with le show ?thesis by linarith
  qed
qed

text \<open>
  C3, as amended. Gapless scheduling. Take a run of handlers in which no message is
  interrupted: first arrivals only (\<open>arrivals\<close>, at least the first message), then \<open>rest\<close>,
  in which handlers go on with their decoded buffers and further messages arrive, in any
  order. The origin of the timeline is the cursor when the first handler goes on: the
  latest of the cursor before the run and the device times the handlers that have arrived
  read. \<open>ds\<close> are the durations of the segments in the order in which they are enqueued,
  none negative. If there is no idle gap, that is, no later message with audio arrives
  when the device clock has passed the cursor, then every step returns normally and the
  calls made to the device are exactly one \<^verbatim>\<open>start\<close> per segment, in that order, segment
  \<open>k\<close> at the origin to which the durations of the segments before it have been added one at
  a time, each sum rounded to the nearest double as the \<^verbatim>\<open>+=\<close> of the source does. Each
  segment starts at the end the source computes for the segment before it, which differs
  from the exact end by at most half a unit in the last place; and the intervals from a
  start to the next start do not overlap. This holds for every interleaving of the handlers
  at their \<^verbatim>\<open>await\<close>, because the start of the segment and the advance of the cursor are
  one step after the \<^verbatim>\<open>await\<close>; the clamp against the device clock is before it. When
  the run begins with one arrival and the handler of that message is the first to go on,
  the origin is the clamp it computed.
\<close>

theorem gapless_scheduling:
  assumes run: "list_all uninterrupted (arrivals @ rest)"
    and arrivals: "durations_of arrivals = []"
    and first: "handler_steps arrivals s = Inr s0"
    and origin: "origin = nextStartTimeRef s0"
    and gaps: "no_idle_gap origin rest"
    and ds: "ds = durations_of rest"
    and double: "is_double origin"
    and positive: "0 \<le> origin"
    and nonneg: "\<forall>d \<in> set ds. 0 \<le> d"
  shows "(\<exists>s'. handler_steps (arrivals @ rest) s = Inr s'
            \<and> deviceCalls s' =
                deviceCalls s
                @ map (\<lambda>k. Start (nodesCreated s + k) (cursor_after origin ds k) (ds ! k))
                      [0..<length ds]
            \<and> nextStartTimeRef s' = cursor_after origin ds (length ds))
       \<and> cursor_after origin ds 0 = origin
       \<and> (\<forall>k < length ds.
             cursor_after origin ds (Suc k) = plus_double (cursor_after origin ds k) (ds ! k))
       \<and> (\<forall>k < length ds.
             \<bar>cursor_after origin ds (Suc k) - (cursor_after origin ds k + ds ! k)\<bar>
               \<le> pow2 (ulp_exponent (cursor_after origin ds k + ds ! k)) / 2)
       \<and> (\<forall>i j. i < j \<and> j < length ds \<longrightarrow>
             cursor_after origin ds (Suc i) \<le> cursor_after origin ds j)
       \<and> (\<forall>i j. i < j \<and> j < length ds \<longrightarrow>
             {cursor_after origin ds i ..< cursor_after origin ds (Suc i)}
           \<inter> {cursor_after origin ds j ..< cursor_after origin ds (Suc j)} = {})
       \<and> (\<forall>e0 m0. arrivals = [Arrives e0 m0] \<and> has_audio m0 s \<longrightarrow>
             origin = max (nextStartTimeRef s) (currentTime e0))"
proof -
  have parts: "list_all uninterrupted arrivals" "list_all uninterrupted rest"
    using run by simp_all
  from arrivals_run [OF parts(1) arrivals, of s] first
  have s0: "deviceCalls s0 = deviceCalls s" "nodesCreated s0 = nodesCreated s"
    by simp_all
  have gaps0: "no_idle_gap (nextStartTimeRef s0) rest"
    using gaps origin by simp
  from exact_run [OF parts(2) gaps0] obtain s' where
    s': "handler_steps rest s0 = Inr s'"
      "deviceCalls s' =
         deviceCalls s0 @ running_starts (nodesCreated s0) (nextStartTimeRef s0) (durations_of rest)"
      "nextStartTimeRef s' = foldl plus_double (nextStartTimeRef s0) (durations_of rest)"
    by blast
  have whole: "handler_steps (arrivals @ rest) s = Inr s'"
    by (simp add: handler_steps_append first s'(1))
  have calls: "deviceCalls s' =
                deviceCalls s
                @ map (\<lambda>k. Start (nodesCreated s + k) (cursor_after origin ds k) (ds ! k))
                      [0..<length ds]"
    unfolding s'(2) s0 running_starts_map origin ds ..
  have cursor: "nextStartTimeRef s' = cursor_after origin ds (length ds)"
    unfolding s'(3) by (simp add: cursor_after_def origin ds)
  have started: "\<exists>s'. handler_steps (arrivals @ rest) s = Inr s'
            \<and> deviceCalls s' =
                deviceCalls s
                @ map (\<lambda>k. Start (nodesCreated s + k) (cursor_after origin ds k) (ds ! k))
                      [0..<length ds]
            \<and> nextStartTimeRef s' = cursor_after origin ds (length ds)"
    using whole calls cursor by blast
  have zero: "cursor_after origin ds 0 = origin"
    by (simp add: cursor_after_def)
  have next_start: "\<forall>k < length ds.
      cursor_after origin ds (Suc k) = plus_double (cursor_after origin ds k) (ds ! k)"
    by (simp add: cursor_after_Suc)
  have error: "\<forall>k < length ds.
      \<bar>cursor_after origin ds (Suc k) - (cursor_after origin ds k + ds ! k)\<bar>
        \<le> pow2 (ulp_exponent (cursor_after origin ds k + ds ! k)) / 2"
  proof (intro allI impI)
    fix k assume k: "k < length ds"
    show "\<bar>cursor_after origin ds (Suc k) - (cursor_after origin ds k + ds ! k)\<bar>
        \<le> pow2 (ulp_exponent (cursor_after origin ds k + ds ! k)) / 2"
      unfolding cursor_after_Suc [OF k] plus_double_def by (rule round_double_error)
  qed
  have order: "\<forall>i j. i < j \<and> j < length ds \<longrightarrow>
      cursor_after origin ds (Suc i) \<le> cursor_after origin ds j"
    using cursor_after_mono [OF double positive nonneg] by simp
  have disjoint: "\<forall>i j. i < j \<and> j < length ds \<longrightarrow>
             {cursor_after origin ds i ..< cursor_after origin ds (Suc i)}
           \<inter> {cursor_after origin ds j ..< cursor_after origin ds (Suc j)} = {}"
  proof (intro allI impI)
    fix i j assume "i < j \<and> j < length ds"
    with order have "cursor_after origin ds (Suc i) \<le> cursor_after origin ds j"
      by blast
    then show "{cursor_after origin ds i ..< cursor_after origin ds (Suc i)}
           \<inter> {cursor_after origin ds j ..< cursor_after origin ds (Suc j)} = {}"
      by auto
  qed
  have clamp: "\<forall>e0 m0. arrivals = [Arrives e0 m0] \<and> has_audio m0 s \<longrightarrow>
             origin = max (nextStartTimeRef s) (currentTime e0)"
  proof (intro allI impI)
    fix e0 m0 assume a: "arrivals = [Arrives e0 m0] \<and> has_audio m0 s"
    then have "s0 = audio_begin e0 (handle_transcriptions e0 m0 s)"
      using first
      by (simp add: onmessage_before_await_def has_audio_handle_transcriptions Let_def)
    then show "origin = max (nextStartTimeRef s) (currentTime e0)"
      by (simp add: origin audio_begin_def handle_transcriptions_playback)
  qed
  from started zero next_start error order disjoint clamp show ?thesis
    by (intro conjI)
qed

text \<open>
  On a fresh session, a message with 0.04 seconds of audio arrives at device time 0 and its
  handler goes on; two more arrive at device times 1/64 and 1/32, the third before the
  handler of the second goes on with 0.08 seconds; the third has one second. The segments
  are started at 0, at 0.04 and at 0.12, the double that the sum of 0.04 and 0.08 is
  rounded to.
\<close>

theorem gapless_scheduling_witness:
  "list_all uninterrupted interleaved_steps
   \<and> no_idle_gap 0 (tl interleaved_steps)
   \<and> is_double 0
   \<and> (\<exists>s'. handler_steps interleaved_steps connected_app = Inr s'
         \<and> deviceCalls s' =
             [Start 0 0 double_0_04,
              Start 1 double_0_04 double_0_08,
              Start 2 (1080863910568919 / 9007199254740992) 1])
   \<and> double_0_04 \<le> 1080863910568919 / 9007199254740992"
proof -
  define arrivals where "arrivals = [Arrives (env_at 1000 0 True) audio_message]"
  define rest where "rest = tl interleaved_steps"
  define s0 where
    "s0 = audio_begin (env_at 1000 0 True)
            (handle_transcriptions (env_at 1000 0 True) audio_message connected_app)"
  define ds where "ds = [double_0_04, double_0_08, 1]"
  have whole: "arrivals @ rest = interleaved_steps"
    by (simp add: arrivals_def rest_def interleaved_steps_def)
  have run: "list_all uninterrupted (arrivals @ rest)"
    unfolding whole by (simp add: interleaved_steps_def audio_message_def)
  have arr: "durations_of arrivals = []"
    by (simp add: arrivals_def)
  have first: "handler_steps arrivals connected_app = Inr s0"
    by (simp add: arrivals_def s0_def onmessage_before_await_def has_audio_handle_transcriptions
          has_audio_def carries_audio_def handle_transcriptions_playback audio_message_def
          connected_app_def Let_def)
  have origin: "(0::real) = nextStartTimeRef s0"
    by (simp add: s0_def audio_begin_def handle_transcriptions_playback connected_app_def
          env_at_def)
  have small: "1 / 64 \<le> double_0_04" "1 / 32 \<le> double_0_04"
    by (simp_all add: double_0_04_def)
  have gaps: "no_idle_gap 0 rest"
    using small by (simp add: rest_def interleaved_steps_def plus_double_examples env_at_def)
  have d: "ds = durations_of rest"
    by (simp add: rest_def interleaved_steps_def ds_def)
  have double: "is_double 0"
    by (rule double_examples)
  have nonneg: "\<forall>d \<in> set ds. 0 \<le> d"
    by (simp add: ds_def double_0_04_def double_0_08_def)
  note th = gapless_scheduling [OF run arr first origin gaps d double order_refl nonneg]
  from th obtain s' where
    steps: "handler_steps (arrivals @ rest) connected_app = Inr s'"
    and calls: "deviceCalls s' =
        deviceCalls connected_app
        @ map (\<lambda>k. Start (nodesCreated connected_app + k) (cursor_after 0 ds k) (ds ! k))
              [0..<length ds]"
    by blast
  have upt3: "[0..<length ds] = [0, 1, 2]"
    by (simp add: ds_def upt_conv_Cons del: upt_Suc)
  have starts: "cursor_after 0 ds 0 = 0" "cursor_after 0 ds (Suc 0) = double_0_04"
    "cursor_after 0 ds 2 = 1080863910568919 / 9007199254740992"
    by (simp_all add: cursor_after_def ds_def plus_double_examples numeral_2_eq_2)
  have nths: "ds ! 0 = double_0_04" "ds ! Suc 0 = double_0_08" "ds ! 2 = 1"
    by (simp_all add: ds_def numeral_2_eq_2)
  have "deviceCalls s' =
          [Start 0 0 double_0_04,
           Start 1 double_0_04 double_0_08,
           Start 2 (1080863910568919 / 9007199254740992) 1]"
    unfolding calls upt3 by (simp add: starts nths connected_app_def)
  with steps have started: "\<exists>s'. handler_steps interleaved_steps connected_app = Inr s'
         \<and> deviceCalls s' =
             [Start 0 0 double_0_04,
              Start 1 double_0_04 double_0_08,
              Start 2 (1080863910568919 / 9007199254740992) 1]"
    unfolding whole by blast
  from th have "\<forall>i j. i < j \<and> j < length ds \<longrightarrow>
      cursor_after 0 ds (Suc i) \<le> cursor_after 0 ds j"
    by blast
  moreover have "0 < (2::nat) \<and> 2 < length ds"
    by (simp add: ds_def)
  ultimately have "cursor_after 0 ds (Suc 0) \<le> cursor_after 0 ds 2"
    by blast
  then have order: "double_0_04 \<le> 1080863910568919 / 9007199254740992"
    using starts by simp
  have run': "list_all uninterrupted interleaved_steps"
    using run unfolding whole .
  from run' gaps double started order show ?thesis
    unfolding rest_def by (intro conjI)
qed

text \<open>
  The claim as it was stated fails in both of its parts. The sum is not the sum of the
  durations: on a fresh session, segments of 0.04, 0.08 and 1 seconds whose messages arrive
  at device times 0, 1/64 and 1/16, each handler going on before the next message arrives,
  are started at 0, 0.04 and 0.12, and this third start is below the sum of the first two
  durations by \<open>2^-57\<close>, so it lies inside the interval from the start of the second
  segment to that start plus its duration. And there is a suspension between the reading of
  the cursor and its advance: when a second message arrives at device time 1/2 while the
  handler of the first, which arrived at device time 0 and clamped the cursor to 0, is at
  its \<^verbatim>\<open>await\<close>, the first segment is started at 1/2 and the second at 5/2, not at 0 and
  at 2.
\<close>

theorem start_is_not_sum_of_durations:
  "list_all uninterrupted sequential_steps
   \<and> no_idle_gap 0 (tl sequential_steps)
   \<and> map_sum id deviceCalls (handler_steps sequential_steps connected_app) =
       Inr [Start 0 0 double_0_04,
            Start 1 double_0_04 double_0_08,
            Start 2 (1080863910568919 / 9007199254740992) 1]
   \<and> 1080863910568919 / 9007199254740992 \<noteq> double_0_04 + double_0_08
   \<and> double_0_04 + double_0_08 - 1080863910568919 / 9007199254740992 = 1 / 2 ^ 57
   \<and> 1080863910568919 / 9007199254740992 \<in> {double_0_04 ..< double_0_04 + double_0_08}
   \<and> {double_0_04 ..< double_0_04 + double_0_08}
       \<inter> {1080863910568919 / 9007199254740992 ..< 1080863910568919 / 9007199254740992 + 1} \<noteq> {}
   \<and> onmessage_before_await (env_at 1000 0 True) audio_message connected_app =
       Inl (connected_app\<lparr>isProfessorSpeaking := True, nextStartTimeRef := 0\<rparr>)
   \<and> map_sum id deviceCalls (handler_steps overtaken_steps connected_app) =
       Inr [Start 0 (1 / 2) 2, Start 1 (5 / 2) 3]"
proof -
  have small: "1 / 64 \<le> double_0_04" "1 / 16 \<le> (1080863910568919 / 9007199254740992 :: real)"
    by (simp_all add: double_0_04_def)
  have unint: "list_all uninterrupted sequential_steps"
    by (simp add: sequential_steps_def audio_message_def)
  have gaps: "no_idle_gap 0 (tl sequential_steps)"
    using small by (simp add: sequential_steps_def plus_double_examples env_at_def)
  have seq: "map_sum id deviceCalls (handler_steps sequential_steps connected_app) =
       Inr [Start 0 0 double_0_04,
            Start 1 double_0_04 double_0_08,
            Start 2 (1080863910568919 / 9007199254740992) 1]"
    using small
    by (simp add: sequential_steps_def onmessage_before_await_def onmessage_after_await_def
          handle_transcriptions_def append_transcriptions_def has_audio_def carries_audio_def
          handle_interrupted_def audio_begin_def audio_resume_def plus_double_examples
          audio_message_def connected_app_def env_at_def Let_def)
  have ne: "1080863910568919 / 9007199254740992 \<noteq> double_0_04 + double_0_08"
    by (simp add: double_0_04_def double_0_08_def)
  have diff: "double_0_04 + double_0_08 - 1080863910568919 / 9007199254740992 = 1 / 2 ^ 57"
    by (simp add: double_0_04_def double_0_08_def)
  have inside: "1080863910568919 / 9007199254740992 \<in> {double_0_04 ..< double_0_04 + double_0_08}"
    by (simp add: double_0_04_def double_0_08_def)
  moreover have "(1080863910568919 / 9007199254740992 :: real)
       \<in> {1080863910568919 / 9007199254740992 ..< 1080863910568919 / 9007199254740992 + 1}"
    by simp
  ultimately have overlap: "{double_0_04 ..< double_0_04 + double_0_08}
       \<inter> {1080863910568919 / 9007199254740992 ..< 1080863910568919 / 9007199254740992 + 1} \<noteq> {}"
    by blast
  have read: "onmessage_before_await (env_at 1000 0 True) audio_message connected_app =
       Inl (connected_app\<lparr>isProfessorSpeaking := True, nextStartTimeRef := 0\<rparr>)"
    by (simp add: onmessage_before_await_def handle_transcriptions_def append_transcriptions_def
          has_audio_def carries_audio_def audio_begin_def audio_message_def connected_app_def
          env_at_def Let_def)
  have over: "map_sum id deviceCalls (handler_steps overtaken_steps connected_app) =
       Inr [Start 0 (1 / 2) 2, Start 1 (5 / 2) 3]"
    by (simp add: overtaken_steps_def onmessage_before_await_def onmessage_after_await_def
          handle_transcriptions_def append_transcriptions_def has_audio_def carries_audio_def
          handle_interrupted_def audio_begin_def audio_resume_def plus_double_examples
          audio_message_def connected_app_def env_at_def Let_def)
  from unint gaps seq ne diff inside overlap read over show ?thesis
    by (intro conjI)
qed

subsection \<open>Handlers interleaved at the await\<close>


lemma chained_mono: "chained c calls \<Longrightarrow> c' \<le> c \<Longrightarrow> chained c' calls"
  by (induction c calls rule: chained.induct) auto

text \<open>
  Whatever the order in which messages arrive and suspended handlers go on, with idle gaps
  or without, as long as no message is interrupted: every step returns normally, and the
  calls made to the device are starts, each no earlier than the end the source computes for
  the segment started before it. The start reads the cursor and the advance follows it with
  nothing in between.
\<close>

lemma interleaved_handlers_chained:
  "list_all uninterrupted steps \<Longrightarrow>
   \<exists>s' calls. handler_steps steps s = Inr s'
      \<and> deviceCalls s' = deviceCalls s @ calls
      \<and> chained (nextStartTimeRef s) calls"
proof (induction steps arbitrary: s)
  case Nil
  then show ?case by simp
next
  case (Cons step steps)
  show ?case
  proof (cases step)
    case (Arrives e m)
    define s1 where "s1 = handle_transcriptions e m s"
    define s2 where "s2 = (if has_audio m s1 then audio_begin e s1 else s1)"
    have step: "handler_steps (step # steps) s = handler_steps steps s2"
      using Cons.prems Arrives
      by (simp add: onmessage_before_await_def handle_interrupted_def s1_def s2_def Let_def)
    have calls: "deviceCalls s2 = deviceCalls s"
      by (simp add: s2_def s1_def audio_begin_def handle_transcriptions_playback)
    have cur: "nextStartTimeRef s \<le> nextStartTimeRef s2"
      by (simp add: s2_def s1_def audio_begin_def handle_transcriptions_playback)
    from Cons.IH [of s2] Cons.prems obtain s' calls' where
      "handler_steps steps s2 = Inr s'" "deviceCalls s' = deviceCalls s2 @ calls'"
      "chained (nextStartTimeRef s2) calls'"
      by auto
    then show ?thesis
      using step calls cur chained_mono by fastforce
  next
    case (Resumes e b m)
    define s2 where "s2 = audio_resume b s"
    have step: "handler_steps (step # steps) s = handler_steps steps s2"
      using Cons.prems Resumes
      by (simp add: onmessage_after_await_def handle_interrupted_def s2_def)
    have calls: "deviceCalls s2 = deviceCalls s @ [Start (nodesCreated s) (nextStartTimeRef s) (duration b)]"
      by (simp add: s2_def audio_resume_def Let_def)
    have cur: "nextStartTimeRef s2 = plus_double (nextStartTimeRef s) (duration b)"
      by (simp add: s2_def audio_resume_def Let_def)
    from Cons.IH [of s2] Cons.prems obtain s' calls' where
      "handler_steps steps s2 = Inr s'" "deviceCalls s' = deviceCalls s2 @ calls'"
      "chained (nextStartTimeRef s2) calls'"
      by auto
    then show ?thesis
      using step calls cur by simp
  qed
qed

subsection \<open>The enqueue after a reset\<close>





section \<open>Properties of the transcript aggregator\<close>

text \<open>
  What the turn-complete branch leaves behind: both accumulators empty, and in the queue one
  update per role whose accumulator was not empty, the user's before the professor's. Only
  an update of the fast path has been computed, from the accumulator as it was; an updater
  still in the queue will read its ref when the render calls it.
\<close>

lemma turn_complete_accumulators:
  "currentInputTransRef (turn_complete e s) = [] \<and> currentOutputTransRef (turn_complete e s) = []"
  by (simp add: turn_complete_def Let_def)

lemma turn_complete_queue:
  "messagesQueue (turn_complete e s) =
     (if currentInputTransRef s \<noteq> [] \<and> currentOutputTransRef s \<noteq> [] then
        (if reactIdle e \<and> messagesQueue s = []
         then [Computed (updater user s (dateNow e) (messages s)), Updater professor]
         else messagesQueue s @ [Updater user, Updater professor])
      else if currentInputTransRef s \<noteq> [] then
        (if reactIdle e \<and> messagesQueue s = []
         then [Computed (updater user s (dateNow e) (messages s))]
         else messagesQueue s @ [Updater user])
      else if currentOutputTransRef s \<noteq> [] then
        (if reactIdle e \<and> messagesQueue s = []
         then [Computed (updater professor s (dateNow e) (messages s))]
         else messagesQueue s @ [Updater professor])
      else messagesQueue s)"
  by (simp add: turn_complete_def setMessages_def Let_def)

text \<open>
  When both accumulators hold text, the professor's updater is never the first update of
  the queue, so it is called by the render, after the handler has cleared the ref it reads:
  the professor's message is appended with an empty text, whatever was accumulated.
\<close>

lemma turn_complete_professor_text_empty:
  assumes "currentInputTransRef s \<noteq> []" and "currentOutputTransRef s \<noteq> []"
  shows "last (messages (render e' (turn_complete e s))) =
           \<lparr>role = professor, text_of = [], timestamp = dateNow e'\<rparr>"
  using assms
  by (simp add: render_def turn_complete_queue turn_complete_accumulators updater_def)

text \<open>
  C5. On a turn-complete signal a message with the accumulated text is to be appended for
  each role whose accumulator is not empty. The code does not do this for the professor
  when both roles have text. With "Hello world" accumulated for the user and "Hi there" for
  the professor, the handler of a turn-complete message returns with both accumulators
  empty and the professor's updater still to be called, and the next render appends the
  professor's message with the empty text: the log is the user's "Hello world" followed by
  an empty professor message when React took its fast path for the first update, and two
  messages with empty texts when it did not. The roles and their order are as claimed; the
  text of the professor's message is not the accumulator.
\<close>

theorem turn_complete_loses_professor_text:
  "(\<exists>s1. onmessage (env_at 1000 5 True) \<lparr>duration = 0\<rparr> turn_complete_message transcribed_app = Inr s1
      \<and> currentInputTransRef s1 = []
      \<and> currentOutputTransRef s1 = []
      \<and> messagesQueue s1 =
           [Computed [\<lparr>role = user, text_of = ''Hello world'', timestamp = 1000\<rparr>], Updater professor]
      \<and> messages (render (env_at 2000 6 False) s1) =
           [\<lparr>role = user, text_of = ''Hello world'', timestamp = 1000\<rparr>,
            \<lparr>role = professor, text_of = [], timestamp = 2000\<rparr>])
   \<and> (\<exists>s1. onmessage (env_at 1000 5 False) \<lparr>duration = 0\<rparr> turn_complete_message transcribed_app = Inr s1
      \<and> currentInputTransRef s1 = []
      \<and> currentOutputTransRef s1 = []
      \<and> messagesQueue s1 = [Updater user, Updater professor]
      \<and> messages (render (env_at 2000 6 False) s1) =
           [\<lparr>role = user, text_of = [], timestamp = 2000\<rparr>,
            \<lparr>role = professor, text_of = [], timestamp = 2000\<rparr>])"
  by (simp add: onmessage_def onmessage_before_await_def handle_transcriptions_def
        append_transcriptions_def turn_complete_def setMessages_def updater_def render_def
        has_audio_def carries_audio_def handle_interrupted_def
        transcribed_app_def connected_app_def env_at_def turn_complete_message_def Let_def)

section \<open>Properties of the PCM codec\<close>

lemma little_endian_inverse:
  "ucast (ucast w :: 8 word) OR push_bit 8 (ucast (ucast (drop_bit 8 w) :: 8 word)) = (w :: 16 word)"
  by (rule bit_word_eqI) (auto simp add: bit_simps)

lemma samples_of_little_endian:
  "samples_of (concat (map little_endian ws) @ rest) = ws @ samples_of rest"
  by (induction ws) (simp_all add: little_endian_def little_endian_inverse)

lemma decode_encode:
  "decode (encode frame) = map (\<lambda>s. decode_sample (encode_sample s)) frame"
  using samples_of_little_endian [of "map encode_sample frame" "[]"]
  by (simp add: decode_def encode_def map_concat comp_def)

lemma round_range:
  assumes "-1 \<le> s" and "s \<le> (1::real)"
  shows "-32767 \<le> round (s * 32767)" and "round (s * 32767) \<le> 32767"
proof -
  have "round (-32767 :: real) \<le> round (s * 32767)"
    using assms by (intro round_mono) simp
  then show "-32767 \<le> round (s * 32767)" by simp
  have "round (s * 32767) \<le> round (32767 :: real)"
    using assms by (intro round_mono) simp
  then show "round (s * 32767) \<le> 32767" by simp
qed

lemma decode_encode_sample:
  assumes "-1 \<le> s" and "s \<le> (1::real)"
  shows "decode_sample (encode_sample s) = real_of_int (round (s * 32767)) / 32768"
proof -
  have c: "clamp s (-1) 1 = s"
    using assms by (simp add: clamp_def)
  have "sint (word_of_int (round (s * 32767)) :: 16 word) = round (s * 32767)"
    using round_range [OF assms] by (simp add: sint_sbintrunc' signed_take_bit_int_eq_self)
  then show ?thesis
    by (simp add: decode_sample_def encode_sample_def c)
qed

lemma sample_error:
  assumes "-1 \<le> s" and "s \<le> (1::real)"
  shows "\<bar>decode_sample (encode_sample s) - s\<bar> \<le> 3 / 65536"
proof -
  have "\<bar>real_of_int (round (s * 32767)) - s * 32767\<bar> \<le> 1 / 2"
    by (rule of_int_round_abs_le)
  then have "\<bar>real_of_int (round (s * 32767)) - s * 32768\<bar> \<le> 3 / 2"
    using assms by linarith
  then have "\<bar>real_of_int (round (s * 32767)) / 32768 - s\<bar> \<le> 3 / 65536"
    by linarith
  then show ?thesis
    by (simp add: decode_encode_sample [OF assms])
qed

lemma round_near_three_quarters: "round (98305 / 131072 * 32767 :: real) = 24575"
  by (simp add: round_def floor_eq_iff)

text \<open>
  C7, as amended. For every frame whose samples all lie in \<open>[-1, 1]\<close>, decoding the chunk
  that encoding the frame produces yields as many samples as the frame has, sample \<open>k\<close>
  being \<open>round (s * 32767) / 32768\<close> for the original sample \<open>s\<close>, which is within
  \<open>3 / 65536\<close>, one and a half times \<open>1 / 32768\<close>, of \<open>s\<close>: half a step from the
  rounding, and up to a whole step from encoding with the factor 32767 and decoding with
  the divisor 32768.
\<close>

theorem decode_encode_error_bound:
  assumes "\<forall>s \<in> set frame. -1 \<le> s \<and> s \<le> 1"
  shows "length (decode (encode frame)) = length frame
       \<and> (\<forall>k < length frame.
             decode (encode frame) ! k = real_of_int (round (frame ! k * 32767)) / 32768
           \<and> \<bar>decode (encode frame) ! k - frame ! k\<bar> \<le> 3 / 65536)"
proof (intro conjI allI impI)
  show "length (decode (encode frame)) = length frame"
    by (simp add: decode_encode)
next
  fix k assume k: "k < length frame"
  then have range: "-1 \<le> frame ! k" "frame ! k \<le> 1"
    using assms by auto
  have nth: "decode (encode frame) ! k = decode_sample (encode_sample (frame ! k))"
    using k by (simp add: decode_encode)
  show "decode (encode frame) ! k = real_of_int (round (frame ! k * 32767)) / 32768"
    unfolding nth by (rule decode_encode_sample [OF range])
  show "\<bar>decode (encode frame) ! k - frame ! k\<bar> \<le> 3 / 65536"
    unfolding nth by (rule sample_error [OF range])
qed

theorem decode_encode_error_bound_witness:
  "length (decode (encode [98305 / 131072, - 1, 1])) = length [98305 / 131072, - 1, 1 :: real]
   \<and> \<bar>decode (encode [98305 / 131072, - 1, 1]) ! 0 - [98305 / 131072, - 1, 1] ! 0\<bar> \<le> 3 / 65536
   \<and> \<bar>decode (encode [98305 / 131072, - 1, 1]) ! 1 - [98305 / 131072, - 1, 1] ! 1\<bar> \<le> 3 / 65536
   \<and> \<bar>decode (encode [98305 / 131072, - 1, 1]) ! 2 - [98305 / 131072, - 1, 1] ! 2\<bar> \<le> 3 / 65536"
proof -
  define frame :: "real list" where "frame = [98305 / 131072, - 1, 1]"
  have r: "\<forall>s \<in> set frame. -1 \<le> s \<and> s \<le> 1"
    by (simp add: frame_def)
  note th = decode_encode_error_bound [OF r]
  have len: "length (decode (encode frame)) = length frame"
    using th by (rule conjunct1)
  have all: "\<forall>k < length frame.
             decode (encode frame) ! k = real_of_int (round (frame ! k * 32767)) / 32768
           \<and> \<bar>decode (encode frame) ! k - frame ! k\<bar> \<le> 3 / 65536"
    using th by (rule conjunct2)
  have k0: "0 < length frame" and k1: "1 < length frame" and k2: "2 < length frame"
    by (simp_all add: frame_def)
  have e0: "\<bar>decode (encode frame) ! 0 - frame ! 0\<bar> \<le> 3 / 65536"
    using all k0 by blast
  have e1: "\<bar>decode (encode frame) ! 1 - frame ! 1\<bar> \<le> 3 / 65536"
    using all k1 by blast
  have e2: "\<bar>decode (encode frame) ! 2 - frame ! 2\<bar> \<le> 3 / 65536"
    using all k2 by blast
  from len e0 e1 e2 show ?thesis
    unfolding frame_def by (intro conjI)
qed

text \<open>
  The claim as it was stated fails for the sample \<open>98305 / 131072\<close>, that is
  \<open>3/4 + 1/131072\<close>, a 32-bit float in range: it is encoded as 24575 and decoded as
  \<open>24575 / 32768\<close>, which is \<open>5 / 131072\<close> away from it, more than \<open>1 / 32768\<close>.
\<close>

theorem decode_encode_error_exceeds:
  "- 1 \<le> (98305 / 131072 :: real) \<and> (98305 / 131072 :: real) \<le> 1
   \<and> decode (encode [98305 / 131072]) = [24575 / 32768]
   \<and> \<bar>decode (encode [98305 / 131072]) ! 0 - [98305 / 131072] ! 0\<bar> = 5 / 131072
   \<and> \<not> \<bar>decode (encode [98305 / 131072]) ! 0 - [98305 / 131072] ! 0\<bar> \<le> 1 / 32768"
  by (simp add: decode_encode decode_sample_def encode_sample_def clamp_def
        round_near_three_quarters [simplified])

end
